theory Spec2Isabelle
  imports Complex_Main "HOL-Library.AList" "HOL-Library.Multiset"
begin

section \<open>Python values, exceptions and loops\<close>

text \<open>
  The development embeds \<^verbatim>\<open>pslq\<close> and \<^verbatim>\<open>identify\<close> of
  \<^verbatim>\<open>mpmath/calculus.py\<close>. Python integers are unbounded and are modelled by
  \<^typ>\<open>int\<close>; \<^verbatim>\<open>//\<close> and \<^verbatim>\<open>>>\<close> round towards minus infinity, as
  \<open>div\<close> on \<^typ>\<open>int\<close> does. Every exception the code can raise is a value.
\<close>

datatype error =
    AssertionError | ZeroDivisionError | KeyError | IndexError | TypeError | ValueError
  | EvalError

fun thenE :: "error + 'a \<Rightarrow> ('a \<Rightarrow> error + 'b) \<Rightarrow> error + 'b" where
  "thenE (Inl e) f = Inl e"
| "thenE (Inr v) f = f v"

text \<open>\<^verbatim>\<open>for i in is: s = f(i, s)\<close>, stopping at the first exception.\<close>

fun for_each :: "'i list \<Rightarrow> ('i \<Rightarrow> 's \<Rightarrow> error + 's) \<Rightarrow> 's \<Rightarrow> error + 's" where
  "for_each [] f s = Inr s"
| "for_each (i # is) f s = (case f i s of Inl e \<Rightarrow> Inl e | Inr s' \<Rightarrow> for_each is f s')"

text \<open>A loop body that may \<^verbatim>\<open>break\<close>: the body says whether the loop goes on.\<close>

datatype 's ctl = Next 's | Brk 's

fun for_break :: "'i list \<Rightarrow> ('i \<Rightarrow> 's \<Rightarrow> error + 's ctl) \<Rightarrow> 's \<Rightarrow> error + 's" where
  "for_break [] f s = Inr s"
| "for_break (i # is) f s =
     (case f i s of Inl e \<Rightarrow> Inl e | Inr (Brk s') \<Rightarrow> Inr s' | Inr (Next s') \<Rightarrow> for_break is f s')"

fun mapE :: "('a \<Rightarrow> error + 'b) \<Rightarrow> 'a list \<Rightarrow> error + 'b list" where
  "mapE f [] = Inr []"
| "mapE f (a # as) =
     (case f a of Inl e \<Rightarrow> Inl e
      | Inr b \<Rightarrow> (case mapE f as of Inl e \<Rightarrow> Inl e | Inr bs \<Rightarrow> Inr (b # bs)))"

text \<open>\<^verbatim>\<open>range(a, b)\<close> and \<^verbatim>\<open>range(a, b, -1)\<close>.\<close>

definition py_range :: "int \<Rightarrow> int \<Rightarrow> int list" where
  "py_range a b = [a..b - 1]"

definition py_range_down :: "int \<Rightarrow> int \<Rightarrow> int list" where
  "py_range_down a b = rev [b + 1..a]"

definition shl :: "int \<Rightarrow> nat \<Rightarrow> int" where
  "shl a k = a * 2 ^ k"

definition shr :: "int \<Rightarrow> nat \<Rightarrow> int" where
  "shr a k = a div 2 ^ k"

definition floordiv :: "int \<Rightarrow> int \<Rightarrow> error + int" where
  "floordiv a b = (if b = 0 then Inl ZeroDivisionError else Inr (a div b))"

text \<open>\<^verbatim>\<open>max(...)\<close> of a sequence; Python raises ValueError on an empty one.\<close>

definition py_max :: "int list \<Rightarrow> error + int" where
  "py_max vs = (case vs of [] \<Rightarrow> Inl ValueError | v # ws \<Rightarrow> Inr (fold max ws v))"

text \<open>
  List indexing with Python's negative indices. The lists \<^verbatim>\<open>x\<close>, \<^verbatim>\<open>s\<close> and
  \<^verbatim>\<open>y\<close> of \<^verbatim>\<open>pslq\<close> hold \<^verbatim>\<open>None\<close> at index 0, so their elements are
  \<^typ>\<open>int option\<close>; \<open>lget\<close> reads an element for arithmetic, where \<^verbatim>\<open>None\<close> is a
  TypeError.
\<close>

definition py_index :: "'a list \<Rightarrow> int \<Rightarrow> error + nat" where
  "py_index xs i =
     (let n = int (length xs); j = (if i < 0 then n + i else i)
      in if 0 \<le> j \<and> j < n then Inr (nat j) else Inl IndexError)"

definition lget_raw :: "'a list \<Rightarrow> int \<Rightarrow> error + 'a" where
  "lget_raw xs i = thenE (py_index xs i) (\<lambda>k. Inr (xs ! k))"

definition lset :: "'a list \<Rightarrow> int \<Rightarrow> 'a \<Rightarrow> error + 'a list" where
  "lset xs i v = thenE (py_index xs i) (\<lambda>k. Inr (xs[k := v]))"

definition lget :: "int option list \<Rightarrow> int \<Rightarrow> error + int" where
  "lget xs i =
     thenE (lget_raw xs i) (\<lambda>v. case v of None \<Rightarrow> Inl TypeError | Some a \<Rightarrow> Inr a)"

text \<open>
  The dictionaries of \<^verbatim>\<open>pslq\<close> are only read and written by key, never iterated:
  a dictionary is an association list with one entry per key, in the order of first
  insertion. \<open>dget\<close> is \<^verbatim>\<open>d[k]\<close> with its KeyError and \<open>dset\<close> is
  \<^verbatim>\<open>d[k] = v\<close>.
\<close>

type_synonym matrix = "((int \<times> int) \<times> int) list"

definition dset :: "matrix \<Rightarrow> int \<times> int \<Rightarrow> int \<Rightarrow> matrix" where
  "dset m k v = AList.update k v m"

definition dget :: "matrix \<Rightarrow> int \<times> int \<Rightarrow> error + int" where
  "dget m k = (case map_of m k of None \<Rightarrow> Inl KeyError | Some v \<Rightarrow> Inr v)"

section \<open>The numeric engine\<close>

text \<open>
  \<^verbatim>\<open>calculus.py\<close> imports its arithmetic from \<^verbatim>\<open>mptypes\<close> and \<^verbatim>\<open>lib\<close>,
  which are not part of the sources at hand. An \<^verbatim>\<open>mpf\<close> value is a real number; what
  the library computes is a parameter of the model:
  \<^item> \<open>mp_prec\<close>: the ambient working precision \<^verbatim>\<open>mp.prec\<close>;
  \<^item> \<open>to_fixed\<close>, \<open>sqrt_fixed\<close>: the fixed-point conversion and square root of \<^verbatim>\<open>lib\<close>;
  \<^item> \<open>mp_sqrt\<close>, \<open>mp_exp\<close>, \<open>mp_log\<close>: the functions of the same names, which may raise;
  \<^item> \<open>mp_eps_pow\<close>: the value \<^verbatim>\<open>eps**0.7\<close> of the ambient machine epsilon;
  \<^item> \<open>eval_expr\<close>: Python's \<^verbatim>\<open>eval(p, mpmath.__dict__)\<close> on a string.
  Sums, products, quotients and comparisons of \<^verbatim>\<open>mpf\<close> values are those of the reals
  (rounding to the working precision is not modelled).
\<close>

record engine =
  mp_prec :: nat
  to_fixed :: "real \<Rightarrow> nat \<Rightarrow> int"
  sqrt_fixed :: "int \<Rightarrow> nat \<Rightarrow> int"
  mp_sqrt :: "real \<Rightarrow> error + real"
  mp_exp :: "real \<Rightarrow> error + real"
  mp_log :: "real \<Rightarrow> error + real"
  mp_eps_pow :: real
  eval_expr :: "string \<Rightarrow> error + real"

definition mp_div :: "real \<Rightarrow> real \<Rightarrow> error + real" where
  "mp_div a b = (if b = 0 then Inl ZeroDivisionError else Inr (a / b))"

text \<open>
  A reference engine for concrete runs, at a working precision of 53 bits. The conversion
  truncates towards minus infinity and the fixed-point square root is the integer square
  root of \<open>x * 2^prec\<close>. The square root of a real is taken to 53 binary places; the
  exponential and the logarithm are short series (the logarithm through
  \<open>2 * artanh ((x - 1) / (x + 1))\<close>), crude but computable. \<^verbatim>\<open>eval\<close> knows the
  literals \<^verbatim>\<open>1\<close> and \<^verbatim>\<open>2\<close>.
\<close>

function isqrt :: "int \<Rightarrow> int" where
  "isqrt n =
     (if n < 2 then max 0 n
      else let r = 2 * isqrt (n div 4) in if (r + 1) * (r + 1) \<le> n then r + 1 else r)"
  by pat_completeness auto
termination
  by (relation "measure nat") auto

definition exact_engine :: engine where
  "exact_engine =
     \<lparr>mp_prec = 53,
      to_fixed = (\<lambda>x p. \<lfloor>x * 2 ^ p\<rfloor>),
      sqrt_fixed = (\<lambda>x p. isqrt (x * 2 ^ p)),
      mp_sqrt = (\<lambda>x. if x < 0 then Inl ValueError
                     else Inr (of_int (isqrt \<lfloor>x * 2 ^ 106\<rfloor>) / 2 ^ 53)),
      mp_exp = (\<lambda>x. Inr (1 + x + x ^ 2 / 2 + x ^ 3 / 6 + x ^ 4 / 24)),
      mp_log = (\<lambda>x. if x \<le> 0 then Inl ValueError
                    else let z = (x - 1) / (x + 1)
                         in Inr (2 * z * (1 + z ^ 2 / 3 + z ^ 4 / 5))),
      mp_eps_pow = 1 / 2 ^ 37,
      eval_expr = (\<lambda>s. if s = ''1'' then Inr 1 else if s = ''2'' then Inr 2
                       else Inl EvalError)\<rparr>"

section \<open>The relation engine: \<^verbatim>\<open>pslq\<close>\<close>

text \<open>\<^verbatim>\<open>round_fixed\<close> (line 661).\<close>

definition round_fixed :: "int \<Rightarrow> nat \<Rightarrow> int" where
  "round_fixed x prec = shl (shr (x + shl 1 (prec - 1)) prec) prec"

text \<open>
  The working state of \<^verbatim>\<open>pslq\<close>: the list \<^verbatim>\<open>y\<close> and the dictionaries
  \<^verbatim>\<open>A\<close>, \<^verbatim>\<open>B\<close>, \<^verbatim>\<open>H\<close>, keyed by pairs of indices.
\<close>

record pslq_state =
  yv :: "int option list"
  Am :: matrix
  Bm :: matrix
  Hm :: matrix

text \<open>Lines 682-686: the target precision, from \<^verbatim>\<open>mp.prec\<close> and \<^verbatim>\<open>n = len(x)\<close>.
  \<^verbatim>\<open>int(prec * 0.75)\<close> multiplies in double precision and truncates; for every
  precision below \<open>2^51\<close> that is \<open>3 * prec div 4\<close>.\<close>

definition pslq_target :: "nat \<Rightarrow> nat \<Rightarrow> nat" where
  "pslq_target prec n =
     (let target = prec div max 2 n
      in if target < 30 then (3 * prec) div 4 else target)"

text \<open>Lines 687-688: the threshold as an \<^verbatim>\<open>mpf\<close>; \<^verbatim>\<open>mpf(2)**(-target)\<close> when the
  caller gives none.\<close>

definition pslq_eps :: "nat \<Rightarrow> nat \<Rightarrow> real option \<Rightarrow> real" where
  "pslq_eps prec n eps =
     (case eps of None \<Rightarrow> 1 / 2 ^ pslq_target prec n | Some e \<Rightarrow> e)"

text \<open>Initialization, step 1 (lines 699-702).\<close>

definition init_step1 :: "int \<Rightarrow> nat \<Rightarrow> matrix \<times> matrix \<times> matrix" where
  "init_step1 n prec =
     fold (\<lambda>i. fold (\<lambda>j (A, B, H).
             let v = shl (if i = j then 1 else 0) prec
             in (dset A (i, j) v, dset B (i, j) v, dset H (i, j) 0))
           (py_range 1 (n + 1)))
       (py_range 1 (n + 1)) ([], [], [])"

text \<open>Step 2 (lines 704-714): the partial norms \<^verbatim>\<open>s\<close> and the normalised
  vector \<^verbatim>\<open>y\<close>.\<close>

definition tail_norm :: "engine \<Rightarrow> int \<Rightarrow> nat \<Rightarrow> int option list \<Rightarrow> int \<Rightarrow> error + int" where
  "tail_norm E n prec x k =
     thenE (for_each (py_range k (n + 1))
              (\<lambda>j t. thenE (lget x j) (\<lambda>xj. Inr (t + shr (xj ^ 2) prec))) 0)
       (\<lambda>t. Inr (sqrt_fixed E t prec))"

definition init_step2 ::
  "engine \<Rightarrow> int \<Rightarrow> nat \<Rightarrow> int option list \<Rightarrow> error + (int option list \<times> int option list)" where
  "init_step2 E n prec x =
     thenE (for_each (py_range 1 (n + 1))
              (\<lambda>k s. thenE (tail_norm E n prec x k) (\<lambda>sk. lset s k (Some sk)))
              (None # replicate (nat n) (Some 0)))
       (\<lambda>s. thenE (lget s 1)
       (\<lambda>t. for_each (py_range 1 (n + 1))
              (\<lambda>k (y, s).
                 thenE (lget x k) (\<lambda>xk.
                 thenE (floordiv (shl xk prec) t) (\<lambda>yk.
                 thenE (lset y k (Some yk)) (\<lambda>y'.
                 thenE (lget s k) (\<lambda>sk.
                 thenE (floordiv (shl sk prec) t) (\<lambda>sk'.
                 thenE (lset s k (Some sk')) (\<lambda>s'. Inr (y', s'))))))))
              (x, s)))"

text \<open>Step 3 (lines 716-722): the initial matrix \<^verbatim>\<open>H\<close>.\<close>

definition init_step3 ::
  "int \<Rightarrow> nat \<Rightarrow> int option list \<Rightarrow> int option list \<Rightarrow> matrix \<Rightarrow> error + matrix" where
  "init_step3 n prec y s H0 =
     for_each (py_range 1 (n + 1))
       (\<lambda>i H.
          let H1 = fold (\<lambda>j H. dset H (i, j) 0) (py_range (i + 1) n) H
          in thenE (if i \<le> n - 1
                    then thenE (lget s (i + 1)) (\<lambda>si1.
                         thenE (lget s i) (\<lambda>si.
                         thenE (floordiv (shl si1 prec) si) (\<lambda>h. Inr (dset H1 (i, i) h))))
                    else Inr H1)
             (\<lambda>H2. for_each (py_range 1 i)
                (\<lambda>j H.
                   thenE (lget y i) (\<lambda>yi.
                   thenE (lget y j) (\<lambda>yj.
                   thenE (lget s j) (\<lambda>sj.
                   thenE (lget s (j + 1)) (\<lambda>sj1.
                   thenE (floordiv (shl (- yi * yj) prec) (sj * sj1)) (\<lambda>h.
                   Inr (dset H (i, j) h)))))))
                H2))
       H0"

text \<open>The quotient \<^verbatim>\<open>round_fixed((H[i,j] << prec)//H[j,j], prec)\<close> of the two
  reduction steps (lines 727 and 768).\<close>

definition reduce_quotient :: "nat \<Rightarrow> matrix \<Rightarrow> int \<Rightarrow> int \<Rightarrow> error + int" where
  "reduce_quotient prec H i j =
     thenE (dget H (i, j)) (\<lambda>hij.
     thenE (dget H (j, j)) (\<lambda>hjj.
     thenE (floordiv (shl hij prec) hjj) (\<lambda>q. Inr (round_fixed q prec))))"

text \<open>The row operation that follows it (lines 728-733 and 772-777).\<close>

definition reduce_rows :: "int \<Rightarrow> nat \<Rightarrow> int \<Rightarrow> int \<Rightarrow> int \<Rightarrow> pslq_state \<Rightarrow> error + pslq_state" where
  "reduce_rows n prec i j t st =
     thenE (lget (yv st) j) (\<lambda>yj.
     thenE (lget (yv st) i) (\<lambda>yi.
     thenE (lset (yv st) j (Some (yj + shr (t * yi) prec))) (\<lambda>y'.
     thenE (for_each (py_range 1 (j + 1))
              (\<lambda>k H. thenE (dget H (i, k)) (\<lambda>hik.
                      thenE (dget H (j, k)) (\<lambda>hjk.
                      Inr (dset H (i, k) (hik - shr (t * hjk) prec)))))
              (Hm st)) (\<lambda>H'.
     thenE (for_each (py_range 1 (n + 1))
              (\<lambda>k (A, B).
                 thenE (dget A (i, k)) (\<lambda>aik.
                 thenE (dget A (j, k)) (\<lambda>ajk.
                 let A' = dset A (i, k) (aik - shr (t * ajk) prec)
                 in thenE (dget B (k, j)) (\<lambda>bkj.
                    thenE (dget B (k, i)) (\<lambda>bki.
                    Inr (A', dset B (k, j) (bkj + shr (t * bki) prec)))))))
              (Am st, Bm st)) (\<lambda>(A', B').
     Inr \<lparr>yv = y', Am = A', Bm = B', Hm = H'\<rparr>)))))"

text \<open>Step 4 of the initialization (lines 724-733): a zero diagonal raises here.\<close>

definition init_step4 :: "int \<Rightarrow> nat \<Rightarrow> pslq_state \<Rightarrow> error + pslq_state" where
  "init_step4 n prec st0 =
     for_each (py_range 2 (n + 1))
       (\<lambda>i. for_each (py_range_down (i - 1) 0)
          (\<lambda>j st. thenE (reduce_quotient prec (Hm st) i j) (\<lambda>t. reduce_rows n prec i j t st)))
       st0"

definition pslq_init :: "engine \<Rightarrow> int \<Rightarrow> nat \<Rightarrow> real list \<Rightarrow> error + pslq_state" where
  "pslq_init E n prec xs =
     (let x = None # map (\<lambda>xk. Some (to_fixed E xk prec)) xs;
          (A, B, H) = init_step1 n prec
      in thenE (init_step2 E n prec x) (\<lambda>(y, s).
         thenE (init_step3 n prec y s H) (\<lambda>H'.
         init_step4 n prec \<lparr>yv = y, Am = A, Bm = B, Hm = H'\<rparr>)))"

text \<open>Main loop, step 1 (lines 737-744): the pivot \<^verbatim>\<open>m\<close>.\<close>

definition choose_pivot :: "engine \<Rightarrow> int \<Rightarrow> nat \<Rightarrow> matrix \<Rightarrow> error + int" where
  "choose_pivot E n prec H =
     thenE (for_each (py_range 1 n)
              (\<lambda>i (m, szmax).
                 thenE (dget H (i, i)) (\<lambda>h.
                 let sz = shr (sqrt_fixed E (shl 4 prec div 3) prec ^ nat i * \<bar>h\<bar>)
                              (prec * nat (i - 1))
                 in Inr (if sz > szmax then (i, sz) else (m, szmax))))
              (- 1, - 1))
       (\<lambda>(m, szmax). Inr m)"

text \<open>Step 2 (lines 746-750): the exchanges. A tuple assignment reads its right-hand
  side first, left to right.\<close>

definition swap_rows :: "int \<Rightarrow> int \<Rightarrow> matrix \<Rightarrow> error + matrix" where
  "swap_rows n m M =
     for_each (py_range 1 (n + 1))
       (\<lambda>i M. thenE (dget M (m + 1, i)) (\<lambda>a.
               thenE (dget M (m, i)) (\<lambda>b.
               Inr (dset (dset M (m, i) a) (m + 1, i) b))))
       M"

definition swap_cols :: "int \<Rightarrow> int \<Rightarrow> matrix \<Rightarrow> error + matrix" where
  "swap_cols n m M =
     for_each (py_range 1 (n + 1))
       (\<lambda>i M. thenE (dget M (i, m + 1)) (\<lambda>a.
               thenE (dget M (i, m)) (\<lambda>b.
               Inr (dset (dset M (i, m) a) (i, m + 1) b))))
       M"

definition exchange :: "int \<Rightarrow> int \<Rightarrow> pslq_state \<Rightarrow> error + pslq_state" where
  "exchange n m st =
     thenE (lget_raw (yv st) (m + 1)) (\<lambda>a.
     thenE (lget_raw (yv st) m) (\<lambda>b.
     thenE (lset (yv st) m a) (\<lambda>y1.
     thenE (lset y1 (m + 1) b) (\<lambda>y2.
     thenE (swap_rows n m (Hm st)) (\<lambda>H'.
     thenE (swap_rows n m (Am st)) (\<lambda>A'.
     thenE (swap_cols n m (Bm st)) (\<lambda>B'.
     Inr \<lparr>yv = y2, Am = A', Bm = B', Hm = H'\<rparr>)))))))"

text \<open>Step 3 (lines 752-763): the rotation norm \<^verbatim>\<open>t0\<close>, and the rotation of
  the columns \<^verbatim>\<open>m\<close>, \<^verbatim>\<open>m+1\<close>. The result \<open>None\<close> is the \<^verbatim>\<open>break\<close>
  of line 756.\<close>

definition rotation_norm :: "engine \<Rightarrow> nat \<Rightarrow> int \<Rightarrow> matrix \<Rightarrow> error + int" where
  "rotation_norm E prec m H =
     thenE (dget H (m, m)) (\<lambda>hmm.
     thenE (dget H (m, m + 1)) (\<lambda>hmm1.
     Inr (sqrt_fixed E (shr (hmm ^ 2 + hmm1 ^ 2) prec) prec)))"

definition rotate :: "engine \<Rightarrow> int \<Rightarrow> nat \<Rightarrow> int \<Rightarrow> matrix \<Rightarrow> error + matrix option" where
  "rotate E n prec m H =
     (if m \<le> n - 2 then
        thenE (rotation_norm E prec m H) (\<lambda>t0.
        if t0 = 0 then Inr None
        else
          thenE (dget H (m, m)) (\<lambda>hmm.
          thenE (floordiv (shl hmm prec) t0) (\<lambda>t1.
          thenE (dget H (m, m + 1)) (\<lambda>hmm1.
          thenE (floordiv (shl hmm1 prec) t0) (\<lambda>t2.
          thenE (for_each (py_range m (n + 1))
                   (\<lambda>i H. thenE (dget H (i, m)) (\<lambda>t3.
                           thenE (dget H (i, m + 1)) (\<lambda>t4.
                           Inr (dset (dset H (i, m) (shr (t1 * t3 + t2 * t4) prec))
                                  (i, m + 1) (shr (- t2 * t3 + t1 * t4) prec)))))
                   H) (\<lambda>H'. Inr (Some H')))))))
      else Inr (Some H))"

text \<open>Step 4 (lines 765-777): only the ZeroDivisionError of the quotient is caught,
  and it leaves the inner loop.\<close>

definition main_step4 :: "int \<Rightarrow> nat \<Rightarrow> int \<Rightarrow> pslq_state \<Rightarrow> error + pslq_state" where
  "main_step4 n prec m st0 =
     for_each (py_range (m + 1) (n + 1))
       (\<lambda>i. for_break (py_range_down (min (i - 1) (m + 1)) 0)
          (\<lambda>j st. case reduce_quotient prec (Hm st) i j of
                     Inl ZeroDivisionError \<Rightarrow> Inr (Brk st)
                   | Inl e \<Rightarrow> Inl e
                   | Inr t \<Rightarrow> thenE (reduce_rows n prec i j t st) (\<lambda>st'. Inr (Next st'))))
       st0"

text \<open>The candidate of line 780 and the termination check (lines 778-782).\<close>

definition candidate :: "int \<Rightarrow> nat \<Rightarrow> matrix \<Rightarrow> int \<Rightarrow> error + int list" where
  "candidate n prec B i =
     mapE (\<lambda>j. thenE (dget B (j, i)) (\<lambda>b. Inr (shr (round_fixed b prec) prec)))
       (py_range 1 (n + 1))"

fun termination_check ::
  "int \<Rightarrow> nat \<Rightarrow> int \<Rightarrow> pslq_state \<Rightarrow> int list \<Rightarrow> error + int list option" where
  "termination_check n prec eps st [] = Inr None"
| "termination_check n prec eps st (i # is) =
     thenE (lget (yv st) i) (\<lambda>yi.
       if \<bar>yi\<bar> < eps then
         thenE (candidate n prec (Bm st) i) (\<lambda>vec.
         thenE (py_max (map abs vec)) (\<lambda>mx.
           if mx < 10 ^ 6 then Inr (Some vec)
           else termination_check n prec eps st is))
       else termination_check n prec eps st is)"

text \<open>One pass of the loop body. It ends by falling through to the next pass, by the
  \<^verbatim>\<open>break\<close> of line 756, by the \<^verbatim>\<open>return vec\<close> of line 782, or by an exception.\<close>

datatype iter_result = Continue pslq_state | Break | Return "int list"

definition reduction :: "engine \<Rightarrow> int \<Rightarrow> nat \<Rightarrow> pslq_state \<Rightarrow> error + pslq_state option" where
  "reduction E n prec st =
     thenE (choose_pivot E n prec (Hm st)) (\<lambda>m.
     thenE (exchange n m st) (\<lambda>st1.
     thenE (rotate E n prec m (Hm st1)) (\<lambda>r.
       case r of
         None \<Rightarrow> Inr None
       | Some H' \<Rightarrow> thenE (main_step4 n prec m (st1\<lparr>Hm := H'\<rparr>)) (\<lambda>st2. Inr (Some st2)))))"

definition pslq_iteration ::
  "engine \<Rightarrow> int \<Rightarrow> nat \<Rightarrow> int \<Rightarrow> pslq_state \<Rightarrow> error + iter_result" where
  "pslq_iteration E n prec eps st =
     thenE (reduction E n prec st) (\<lambda>r.
       case r of
         None \<Rightarrow> Inr Break
       | Some st' \<Rightarrow>
           thenE (termination_check n prec eps st' (py_range 1 (n + 1))) (\<lambda>c.
             case c of Some vec \<Rightarrow> Inr (Return vec) | None \<Rightarrow> Inr (Continue st')))"

text \<open>\<^verbatim>\<open>for REP in range(100)\<close> with the \<^verbatim>\<open>return None\<close> after it: the first
  argument counts the passes that remain.\<close>

fun main_loop ::
  "engine \<Rightarrow> int \<Rightarrow> nat \<Rightarrow> int \<Rightarrow> nat \<Rightarrow> pslq_state \<Rightarrow> error + int list option" where
  "main_loop E n prec eps 0 st = Inr None"
| "main_loop E n prec eps (Suc k) st =
     (case pslq_iteration E n prec eps st of
        Inl e \<Rightarrow> Inl e
      | Inr Break \<Rightarrow> Inr None
      | Inr (Return vec) \<Rightarrow> Inr (Some vec)
      | Inr (Continue st') \<Rightarrow> main_loop E n prec eps k st')"

text \<open>\<^verbatim>\<open>pslq(x, eps=None)\<close> (lines 672-783). The two \<^verbatim>\<open>assert\<close> statements come
  first; the working precision is raised by 60 bits.\<close>

definition pslq :: "engine \<Rightarrow> real list \<Rightarrow> real option \<Rightarrow> error + int list option" where
  "pslq E xs eps =
     (let n = length xs in
      if \<not> n \<ge> 1 then Inl AssertionError
      else if \<not> mp_prec E \<ge> 53 then Inl AssertionError
      else
        let prec = mp_prec E + 60;
            eps' = to_fixed E (pslq_eps (mp_prec E) n eps) prec
        in thenE (pslq_init E (int n) prec xs)
             (\<lambda>st. main_loop E (int n) prec eps' 100 st))"

section \<open>Observing the main loop\<close>

text \<open>
  The functions of this section add nothing to \<^verbatim>\<open>pslq\<close>; they observe the run of its
  main loop. \<open>iterate k st\<close> is the state after \<open>k\<close> passes that all fell through to
  the next pass (\<open>None\<close> when the loop was left before), and \<open>passes k st\<close> counts the
  passes that a loop with a budget of \<open>k\<close> executes from \<open>st\<close>.
\<close>

fun iterate :: "engine \<Rightarrow> int \<Rightarrow> nat \<Rightarrow> int \<Rightarrow> nat \<Rightarrow> pslq_state \<Rightarrow> pslq_state option" where
  "iterate E n prec eps 0 st = Some st"
| "iterate E n prec eps (Suc k) st =
     (case pslq_iteration E n prec eps st of
        Inr (Continue st') \<Rightarrow> iterate E n prec eps k st'
      | _ \<Rightarrow> None)"

fun passes :: "engine \<Rightarrow> int \<Rightarrow> nat \<Rightarrow> int \<Rightarrow> nat \<Rightarrow> pslq_state \<Rightarrow> nat" where
  "passes E n prec eps 0 st = 0"
| "passes E n prec eps (Suc k) st =
     Suc (case pslq_iteration E n prec eps st of
            Inr (Continue st') \<Rightarrow> passes E n prec eps k st'
          | _ \<Rightarrow> 0)"

text \<open>The situation of line 755: the pivot is at most \<open>n - 2\<close> and, after the exchange,
  the rotation norm \<^verbatim>\<open>t0\<close> is zero.\<close>

definition degenerate_rotation :: "engine \<Rightarrow> int \<Rightarrow> nat \<Rightarrow> pslq_state \<Rightarrow> bool" where
  "degenerate_rotation E n prec st =
     (case choose_pivot E n prec (Hm st) of
        Inl e \<Rightarrow> False
      | Inr m \<Rightarrow> m \<le> n - 2 \<and>
          (case exchange n m st of
             Inl e \<Rightarrow> False
           | Inr st1 \<Rightarrow> rotation_norm E prec m (Hm st1) = Inr 0))"

text \<open>Three observations of a whole call \<^verbatim>\<open>pslq(x, eps)\<close>: the number of passes of the
  main loop it executes, whether all 100 passes fell through, and whether the pass with
  index \<open>j\<close> is reached and finds a zero rotation norm.\<close>

definition run_passes :: "engine \<Rightarrow> real list \<Rightarrow> real option \<Rightarrow> nat" where
  "run_passes E xs eps =
     (let n = length xs; prec = mp_prec E + 60;
          eps' = to_fixed E (pslq_eps (mp_prec E) n eps) prec
      in if \<not> n \<ge> 1 \<or> \<not> mp_prec E \<ge> 53 then 0
         else case pslq_init E (int n) prec xs of
                Inl e \<Rightarrow> 0
              | Inr st \<Rightarrow> passes E (int n) prec eps' 100 st)"

definition budget_exhausted :: "engine \<Rightarrow> real list \<Rightarrow> real option \<Rightarrow> bool" where
  "budget_exhausted E xs eps =
     (let n = length xs; prec = mp_prec E + 60;
          eps' = to_fixed E (pslq_eps (mp_prec E) n eps) prec
      in n \<ge> 1 \<and> mp_prec E \<ge> 53 \<and>
         (case pslq_init E (int n) prec xs of
            Inl e \<Rightarrow> False
          | Inr st \<Rightarrow> iterate E (int n) prec eps' 100 st \<noteq> None))"

definition degenerate_at :: "engine \<Rightarrow> real list \<Rightarrow> real option \<Rightarrow> nat \<Rightarrow> bool" where
  "degenerate_at E xs eps j =
     (let n = length xs; prec = mp_prec E + 60;
          eps' = to_fixed E (pslq_eps (mp_prec E) n eps) prec
      in n \<ge> 1 \<and> mp_prec E \<ge> 53 \<and>
         (case pslq_init E (int n) prec xs of
            Inl e \<Rightarrow> False
          | Inr st0 \<Rightarrow>
              (case iterate E (int n) prec eps' j st0 of
                 None \<Rightarrow> False
               | Some st \<Rightarrow> degenerate_rotation E (int n) prec st)))"


text \<open>
  Line 735 once more, as a loop on the counter \<^verbatim>\<open>REP\<close>: a pass is made while
  \<^verbatim>\<open>REP < 100\<close>. Nothing here assumes that the loop ends; its value is \<open>None\<close> if it
  does not. The second component of the result counts the passes that were executed.
\<close>

partial_function (option) rep_loop ::
  "engine \<Rightarrow> int \<Rightarrow> nat \<Rightarrow> int \<Rightarrow> nat \<Rightarrow> pslq_state \<Rightarrow> ((error + int list option) \<times> nat) option" where
  "rep_loop E n prec eps rep st =
     (if rep < 100 then
        (case pslq_iteration E n prec eps st of
           Inl e \<Rightarrow> Some (Inl e, rep + 1)
         | Inr Break \<Rightarrow> Some (Inr None, rep + 1)
         | Inr (Return vec) \<Rightarrow> Some (Inr (Some vec), rep + 1)
         | Inr (Continue st') \<Rightarrow> rep_loop E n prec eps (rep + 1) st')
      else Some (Inr None, rep))"

text \<open>The whole call with that loop; an exception before the loop leaves no pass
  executed.\<close>

definition pslq_call ::
  "engine \<Rightarrow> real list \<Rightarrow> real option \<Rightarrow> ((error + int list option) \<times> nat) option" where
  "pslq_call E xs eps =
     (let n = length xs in
      if \<not> n \<ge> 1 then Some (Inl AssertionError, 0)
      else if \<not> mp_prec E \<ge> 53 then Some (Inl AssertionError, 0)
      else
        let prec = mp_prec E + 60;
            eps' = to_fixed E (pslq_eps (mp_prec E) n eps) prec
        in case pslq_init E (int n) prec xs of
             Inl e \<Rightarrow> Some (Inl e, 0)
           | Inr st \<Rightarrow> rep_loop E (int n) prec eps' 0 st)"

text \<open>\<^verbatim>\<open>pslq\<close> with the main loop cut to \<open>k\<close> passes (\<^verbatim>\<open>range(k)\<close> in line 735).\<close>

definition pslq_within :: "nat \<Rightarrow> engine \<Rightarrow> real list \<Rightarrow> real option \<Rightarrow> error + int list option" where
  "pslq_within k E xs eps =
     (let n = length xs in
      if \<not> n \<ge> 1 then Inl AssertionError
      else if \<not> mp_prec E \<ge> 53 then Inl AssertionError
      else
        let prec = mp_prec E + 60;
            eps' = to_fixed E (pslq_eps (mp_prec E) n eps) prec
        in thenE (pslq_init E (int n) prec xs)
             (\<lambda>st. main_loop E (int n) prec eps' k st))"

section \<open>The symbolic formatter\<close>

text \<open>\<^verbatim>\<open>str(i)\<close> of an integer, \<^verbatim>\<open>sep.join(xs)\<close>, \<^verbatim>\<open>pat in s\<close> and
  \<^verbatim>\<open>s.replace(old, new)\<close> (with a non-empty \<^verbatim>\<open>old\<close>, as everywhere in the code).\<close>

function digits :: "int \<Rightarrow> string" where
  "digits n =
     (if n < 10 then [''0123456789'' ! nat n]
      else digits (n div 10) @ [''0123456789'' ! nat (n mod 10)])"
  by pat_completeness auto
termination
  by (relation "measure nat") auto

definition str_int :: "int \<Rightarrow> string" where
  "str_int i = (if i < 0 then ''-'' @ digits (- i) else digits i)"

fun join :: "string \<Rightarrow> string list \<Rightarrow> string" where
  "join sep [] = []"
| "join sep [s] = s"
| "join sep (s # t # ss) = s @ sep @ join sep (t # ss)"

fun contains :: "string \<Rightarrow> string \<Rightarrow> bool" where
  "contains pat [] = (pat = [])"
| "contains pat (c # cs) = (take (length pat) (c # cs) = pat \<or> contains pat cs)"

function str_replace :: "string \<Rightarrow> string \<Rightarrow> string \<Rightarrow> string" where
  "str_replace old new s =
     (if old = [] \<or> s = [] then s
      else if take (length old) s = old then new @ str_replace old new (drop (length old) s)
      else hd s # str_replace old new (tl s))"
  by pat_completeness auto
termination
  by (relation "measure (\<lambda>(old, new, s). length s)") auto

text \<open>\<^verbatim>\<open>fracgcd\<close> (lines 798-807): the result is an integer or a pair. The
  \<^verbatim>\<open>while\<close> loop is Euclid's; \<open>\<bar>y\<bar>\<close> decreases.\<close>

datatype frac = FracInt int | FracPair int int

function gcd_loop :: "int \<Rightarrow> int \<Rightarrow> int" where
  "gcd_loop x y = (if y = 0 then x else gcd_loop y (x mod y))"
  by pat_completeness auto
termination
  by (relation "measure (\<lambda>(x, y). nat \<bar>y\<bar>)") (auto simp: abs_mod_less)

definition fracgcd :: "int \<Rightarrow> int \<Rightarrow> error + frac" where
  "fracgcd p q =
     (let x = gcd_loop p q
      in thenE (if x \<noteq> 1
                then thenE (floordiv p x) (\<lambda>p'. thenE (floordiv q x) (\<lambda>q'. Inr (p', q')))
                else Inr (p, q))
           (\<lambda>(p', q'). Inr (if q' = 1 then FracInt p' else FracPair p' q')))"

text \<open>\<^verbatim>\<open>pslqstring\<close> (lines 809-831). A constant is a pair of a value and a display
  name.\<close>

type_synonym const = "real \<times> string"

definition pslq_term :: "int \<Rightarrow> int \<Rightarrow> string \<Rightarrow> error + string" where
  "pslq_term p q name =
     thenE (fracgcd (- p) q) (\<lambda>z.
       let cs = (if name = ''1'' then [] else ''*'' @ name)
       in Inr (case z of
                 FracInt k \<Rightarrow>
                   if k > 0 then str_int k @ cs else ''('' @ str_int k @ '')'' @ cs
               | FracPair a b \<Rightarrow> ''('' @ str_int a @ ''/'' @ str_int b @ '')'' @ cs))"

definition pslqstring :: "int list \<Rightarrow> const list \<Rightarrow> error + string" where
  "pslqstring r constants =
     (case r of
        [] \<Rightarrow> Inl IndexError
      | q # r' \<Rightarrow>
          thenE (for_each (py_range 0 (int (length r')))
                   (\<lambda>i s. let p = r' ! nat i
                          in if p \<noteq> 0
                             then thenE (lget_raw constants i) (\<lambda>(c, name).
                                  thenE (pslq_term p q name) (\<lambda>term. Inr (s @ [term])))
                             else Inr s)
                   [])
            (\<lambda>s. let j = join '' + '' s;
                     j' = (if CHR ''+'' \<in> set j \<or> CHR ''*'' \<in> set j then ''('' @ j @ '')'' else j)
                 in Inr (if j' = [] then ''0'' else j')))"

text \<open>\<^verbatim>\<open>prodstring\<close> (lines 833-854); it returns \<^verbatim>\<open>None\<close> when no factor is
  left.\<close>

definition prod_term :: "int \<Rightarrow> int \<Rightarrow> string \<Rightarrow> error + (string \<times> bool)" where
  "prod_term p q cs =
     thenE (fracgcd (- p) q) (\<lambda>z.
       Inr (case z of
              FracInt k \<Rightarrow>
                (if \<bar>k\<bar> = 1 then cs else cs @ ''**'' @ str_int \<bar>k\<bar>, k < 0)
            | FracPair a b \<Rightarrow>
                (cs @ ''**('' @ str_int \<bar>a\<bar> @ ''/'' @ str_int b @ '')'', a < 0)))"

definition prodstring :: "int list \<Rightarrow> const list \<Rightarrow> error + string option" where
  "prodstring r constants =
     (case r of
        [] \<Rightarrow> Inl IndexError
      | q # r' \<Rightarrow>
          thenE (for_each (py_range 0 (int (length r')))
                   (\<lambda>i (num, den).
                      let p = r' ! nat i
                      in if p \<noteq> 0
                         then thenE (lget_raw constants i) (\<lambda>(c, cs).
                              thenE (prod_term p q cs) (\<lambda>(t, neg).
                              Inr (if neg then (num, den @ [t]) else (num @ [t], den))))
                         else Inr (num, den))
                   ([], []))
            (\<lambda>(num, den).
               let num = join ''*'' num; den = join ''*'' den
               in Inr (if num \<noteq> [] \<and> den \<noteq> [] then Some (''('' @ num @ '')/('' @ den @ '')'')
                       else if num \<noteq> [] then Some num
                       else if den \<noteq> [] then Some (''1/('' @ den @ '')'')
                       else None)))"

text \<open>\<^verbatim>\<open>quadraticstring\<close> (lines 856-867). The square root is the engine's.\<close>

definition quadraticstring :: "engine \<Rightarrow> real \<Rightarrow> int \<Rightarrow> int \<Rightarrow> int \<Rightarrow> error + string" where
  "quadraticstring E t a0 b0 c0 =
     (let (a, b, c) = (if c0 < 0 then (- a0, - b0, - c0) else (a0, b0, c0))
      in thenE (mp_sqrt E (of_int (b ^ 2 - 4 * a * c))) (\<lambda>sq.
         thenE (mp_div (of_int (- b) + sq) (of_int (2 * c))) (\<lambda>u1.
         thenE (mp_div (of_int (- b) - sq) (of_int (2 * c))) (\<lambda>u2.
         Inr (if \<bar>u1 - t\<bar> < \<bar>u2 - t\<bar> then
                (if b \<noteq> 0
                 then ''(('' @ str_int (- b) @ ''+sqrt('' @ str_int (b ^ 2 - 4 * a * c) @ ''))/''
                      @ str_int (2 * c) @ '')''
                 else ''(sqrt('' @ str_int (- 4 * a * c) @ '')/'' @ str_int (2 * c) @ '')'')
              else
                (if b \<noteq> 0
                 then ''(('' @ str_int (- b) @ ''-sqrt('' @ str_int (b ^ 2 - 4 * a * c) @ ''))/''
                      @ str_int (2 * c) @ '')''
                 else ''(-sqrt('' @ str_int (- 4 * a * c) @ '')/'' @ str_int (2 * c) @ '')''))))))"

section \<open>The transform catalog\<close>

text \<open>The table \<^verbatim>\<open>transforms\<close> (lines 872-900): the forward map, the inverse template
  and the flag that marks the transform redundant for the constant 1.\<close>

type_synonym transform = "(engine \<Rightarrow> real \<Rightarrow> real \<Rightarrow> error + real) \<times> string \<times> bool"

definition transforms :: "transform list" where
  "transforms =
    [(\<lambda>E x c. Inr (x * c), ''$y/$c'', False),
     (\<lambda>E x c. mp_div x c, ''$c*$y'', True),
     (\<lambda>E x c. mp_div c x, ''$c/$y'', False),
     (\<lambda>E x c. Inr ((x * c) ^ 2), ''sqrt($y)/$c'', False),
     (\<lambda>E x c. thenE (mp_div x c) (\<lambda>q. Inr (q ^ 2)), ''$c*sqrt($y)'', True),
     (\<lambda>E x c. thenE (mp_div c x) (\<lambda>q. Inr (q ^ 2)), ''$c/sqrt($y)'', False),
     (\<lambda>E x c. Inr (c * x ^ 2), ''sqrt($y)/sqrt($c)'', True),
     (\<lambda>E x c. mp_div (x ^ 2) c, ''sqrt($c)*sqrt($y)'', True),
     (\<lambda>E x c. mp_div c (x ^ 2), ''sqrt($c)/sqrt($y)'', True),
     (\<lambda>E x c. mp_sqrt E (x * c), ''$y**2/$c'', False),
     (\<lambda>E x c. thenE (mp_div x c) (mp_sqrt E), ''$c*$y**2'', True),
     (\<lambda>E x c. thenE (mp_div c x) (mp_sqrt E), ''$c/$y**2'', False),
     (\<lambda>E x c. thenE (mp_sqrt E x) (\<lambda>s. Inr (c * s)), ''$y**2/$c**2'', True),
     (\<lambda>E x c. thenE (mp_sqrt E x) (\<lambda>s. mp_div s c), ''$c**2*$y**2'', True),
     (\<lambda>E x c. thenE (mp_sqrt E x) (\<lambda>s. mp_div c s), ''$c**2/$y**2'', True),
     (\<lambda>E x c. mp_exp E (x * c), ''log($y)/$c'', False),
     (\<lambda>E x c. thenE (mp_div x c) (mp_exp E), ''$c*log($y)'', True),
     (\<lambda>E x c. thenE (mp_div c x) (mp_exp E), ''$c/log($y)'', False),
     (\<lambda>E x c. thenE (mp_exp E x) (\<lambda>e. Inr (c * e)), ''log($y/$c)'', True),
     (\<lambda>E x c. thenE (mp_exp E x) (\<lambda>e. mp_div e c), ''log($c*$y)'', True),
     (\<lambda>E x c. thenE (mp_exp E x) (\<lambda>e. mp_div c e), ''log($c/$y)'', False),
     (\<lambda>E x c. mp_log E (x * c), ''exp($y)/$c'', False),
     (\<lambda>E x c. thenE (mp_div x c) (mp_log E), ''$c*exp($y)'', True),
     (\<lambda>E x c. thenE (mp_div c x) (mp_log E), ''$c/exp($y)'', False),
     (\<lambda>E x c. thenE (mp_log E x) (\<lambda>l. Inr (c * l)), ''exp($y/$c)'', True),
     (\<lambda>E x c. thenE (mp_log E x) (\<lambda>l. mp_div l c), ''exp($c*$y)'', True),
     (\<lambda>E x c. thenE (mp_log E x) (\<lambda>l. mp_div c l), ''exp($c/$y)'', False)]"

section \<open>The constant recognizer: \<^verbatim>\<open>identify\<close>\<close>

text \<open>
  The \<^verbatim>\<open>constants\<close> argument is a list of strings or a dictionary from names to
  values (its items in iteration order). Lines 971-975 turn it into a list of constants.
  For a list every string is passed to \<^verbatim>\<open>eval\<close>; the first component of the result
  logs the strings that were evaluated, in order.
\<close>

datatype constants_arg = ConstList "string list" | ConstDict "(string \<times> real) list"

fun eval_constants :: "engine \<Rightarrow> string list \<Rightarrow> string list \<times> (error + const list)" where
  "eval_constants E [] = ([], Inr [])"
| "eval_constants E (p # ps) =
     (case eval_expr E p of
        Inl e \<Rightarrow> ([p], Inl e)
      | Inr v \<Rightarrow>
          (case eval_constants E ps of
             (seen, Inl e) \<Rightarrow> (p # seen, Inl e)
           | (seen, Inr cs) \<Rightarrow> (p # seen, Inr ((v, p) # cs))))"

definition resolve_constants :: "engine \<Rightarrow> constants_arg \<Rightarrow> string list \<times> (error + const list)" where
  "resolve_constants E constants =
     (case constants of
        ConstDict items \<Rightarrow> ([], Inr (map (\<lambda>(name, v). (v, name)) items))
      | ConstList ps \<Rightarrow> eval_constants E ps)"

text \<open>
  Lines 977-979. The test is \<^verbatim>\<open>1 not in [value for (name, value) in constants]\<close>, and
  the elements of \<^verbatim>\<open>constants\<close> are pairs \<^verbatim>\<open>(value, name)\<close>: the list that is searched
  for the integer 1 holds the display names, which are strings. In Python an integer is
  never equal to a string.
\<close>

definition py_int_eq_str :: "int \<Rightarrow> string \<Rightarrow> bool" where
  "py_int_eq_str i s = False"

definition inject_one :: "const list \<Rightarrow> const list" where
  "inject_one constants =
     (if \<not> list_ex (py_int_eq_str 1) (map snd constants) then (1, ''1'') # constants
      else constants)"

definition search_constants :: "engine \<Rightarrow> constants_arg \<Rightarrow> error + const list" where
  "search_constants E constants =
     thenE (snd (resolve_constants E constants)) (\<lambda>cs. Inr (inject_one cs))"

text \<open>Lines 966-969: a tolerance that is \<^verbatim>\<open>None\<close> or zero is false.\<close>

definition weps_of :: "engine \<Rightarrow> real option \<Rightarrow> real" where
  "weps_of E tolerance =
     (case tolerance of
        None \<Rightarrow> mp_eps_pow E
      | Some tol \<Rightarrow> if tol \<noteq> 0 then tol else mp_eps_pow E)"

text \<open>The test of lines 993 and 1024 on a relation that is not \<^verbatim>\<open>None\<close>:
  \<^verbatim>\<open>max(abs(uw) for uw in r) <= maxcoeff and r[0]\<close>.\<close>

definition accept_relation :: "int list \<Rightarrow> int \<Rightarrow> error + bool" where
  "accept_relation r maxcoeff =
     thenE (py_max (map abs r)) (\<lambda>mx.
       if mx \<le> maxcoeff then thenE (lget_raw r 0) (\<lambda>r0. Inr (r0 \<noteq> 0)) else Inr False)"

text \<open>
  A solution is the formula that \<^verbatim>\<open>addsolution\<close> appends (\<^verbatim>\<open>prodstring\<close> may give
  \<^verbatim>\<open>None\<close>) together with the relation vector it was built from. The vector is kept
  for the statements about the search only; the results of \<^verbatim>\<open>identify\<close> drop it.
\<close>

type_synonym solution = "string option \<times> int list"

text \<open>Lines 997-1001: the quadratic test on \<^verbatim>\<open>[1, t, t**2]\<close>.\<close>

definition quadratic_formula ::
  "engine \<Rightarrow> real \<Rightarrow> int \<Rightarrow> real \<Rightarrow> error + (string \<times> int list) option" where
  "quadratic_formula E t maxcoeff weps =
     thenE (pslq E [1, t, t ^ 2] (Some weps)) (\<lambda>q.
       case q of
         None \<Rightarrow> Inr None
       | Some qv \<Rightarrow>
           if length qv = 3 \<and> qv ! 2 \<noteq> 0 then
             (let aa = qv ! 0; bb = qv ! 1; cc = qv ! 2
              in if max \<bar>aa\<bar> (max \<bar>bb\<bar> \<bar>cc\<bar>) \<le> maxcoeff
                 then thenE (quadraticstring E t aa bb cc) (\<lambda>s. Inr (Some (s, qv)))
                 else Inr None)
           else Inr None)"

text \<open>Lines 991-1001: the formula \<^verbatim>\<open>s\<close> for a transformed value \<^verbatim>\<open>t\<close>, if any.\<close>

definition find_formula ::
  "engine \<Rightarrow> real \<Rightarrow> const list \<Rightarrow> int \<Rightarrow> real \<Rightarrow> bool \<Rightarrow> error + (string \<times> int list) option" where
  "find_formula E t constants maxcoeff weps quadratics =
     thenE (pslq E (t # map fst constants) (Some weps)) (\<lambda>r.
     thenE (case r of None \<Rightarrow> Inr False | Some rv \<Rightarrow> accept_relation rv maxcoeff) (\<lambda>linear.
       case r of
         Some rv \<Rightarrow>
           if linear then thenE (pslqstring rv constants) (\<lambda>s. Inr (Some (s, rv)))
           else if quadratics then quadratic_formula E t maxcoeff weps
           else Inr None
       | None \<Rightarrow>
           if quadratics then quadratic_formula E t maxcoeff weps else Inr None))"

text \<open>Lines 1003-1006: the inverse template around the formula.\<close>

definition apply_template :: "string \<Rightarrow> string \<Rightarrow> string \<Rightarrow> string" where
  "apply_template ftn cn s =
     (if cn = ''1'' \<and> contains ''/$c'' ftn
      then str_replace ''/$c'' [] (str_replace ''$y'' s ftn)
      else str_replace ''$c'' cn (str_replace ''$y'' s ftn))"

text \<open>
  Lines 982-1011: the loop over the transforms and, inside, over the constants, as one
  loop over the pairs in that order. The result is the list \<^verbatim>\<open>solutions\<close> and whether
  the \<^verbatim>\<open>return solutions[0]\<close> of line 1008 was taken.
\<close>

fun transform_search ::
  "engine \<Rightarrow> real \<Rightarrow> const list \<Rightarrow> bool \<Rightarrow> int \<Rightarrow> real \<Rightarrow> bool \<Rightarrow>
   (transform \<times> const) list \<Rightarrow> solution list \<Rightarrow> error + (solution list \<times> bool)" where
  "transform_search E x constants full maxcoeff weps quadratics [] sols = Inr (sols, False)"
| "transform_search E x constants full maxcoeff weps quadratics (((ft, ftn, red), (c, cn)) # rest) sols =
     (if red \<and> cn = ''1''
      then transform_search E x constants full maxcoeff weps quadratics rest sols
      else
        case ft E x c of
          Inl e \<Rightarrow> Inl e
        | Inr t \<Rightarrow>
            if \<bar>t\<bar> > of_int (maxcoeff ^ 2) \<or> \<bar>t\<bar> < weps
            then transform_search E x constants full maxcoeff weps quadratics rest sols
            else
              case find_formula E t constants maxcoeff weps quadratics of
                Inl e \<Rightarrow> Inl e
              | Inr None \<Rightarrow> transform_search E x constants full maxcoeff weps quadratics rest sols
              | Inr (Some (s, r)) \<Rightarrow>
                  if s \<noteq> [] then
                    (let sols' = sols @ [(Some (apply_template ftn cn s), r)]
                     in if \<not> full then Inr (sols', True)
                        else transform_search E x constants full maxcoeff weps quadratics rest sols')
                  else transform_search E x constants full maxcoeff weps quadratics rest sols)"

text \<open>\<^verbatim>\<open>findpoly\<close> (lines 786-796).\<close>

fun findpoly_loop :: "engine \<Rightarrow> real \<Rightarrow> real list \<Rightarrow> int list \<Rightarrow> error + int list option" where
  "findpoly_loop E x xs [] = Inr None"
| "findpoly_loop E x xs (i # is) =
     (let xs' = xs @ [x ^ nat i]
      in case pslq E xs' None of
           Inl e \<Rightarrow> Inl e
         | Inr (Some a) \<Rightarrow> Inr (Some (rev a))
         | Inr None \<Rightarrow> findpoly_loop E x xs' is)"

definition findpoly :: "engine \<Rightarrow> real \<Rightarrow> int \<Rightarrow> error + int list option" where
  "findpoly E x n =
     (if x = 0 then Inr (Some [1, 0]) else findpoly_loop E x [1] (py_range 1 (n + 1)))"

text \<open>Lines 1016-1022: the logarithms of 2, 3, 5, 7 and of the constants that are not
  already a rational power of one of them.\<close>

definition ilogs :: "int list" where
  "ilogs = [2, 3, 5, 7]"

definition known_power :: "engine \<Rightarrow> real \<Rightarrow> error + bool" where
  "known_power E a =
     thenE (mapE (\<lambda>i. thenE (mp_log E a) (\<lambda>la.
                      thenE (mp_log E (of_int i)) (\<lambda>li.
                      thenE (mp_div la li) (\<lambda>q.
                      thenE (findpoly E q 1) (\<lambda>p.
                      Inr (case p of None \<Rightarrow> False | Some l \<Rightarrow> l \<noteq> [])))))) ilogs)
       (\<lambda>bs. Inr (sum_list (map (\<lambda>b. if b then (1 :: int) else 0) bs) \<noteq> 0))"

definition log_constants :: "engine \<Rightarrow> const list \<Rightarrow> error + const list" where
  "log_constants E constants =
     thenE (for_each constants
              (\<lambda>(a, s) logs.
                 thenE (known_power E a) (\<lambda>known.
                 if \<not> known then thenE (mp_log E a) (\<lambda>la. Inr (logs @ [(la, s)]))
                 else Inr logs))
              [])
       (\<lambda>logs. thenE (mapE (\<lambda>i. thenE (mp_log E (of_int i)) (\<lambda>li. Inr (li, str_int i))) ilogs)
       (\<lambda>base. Inr (base @ logs)))"

text \<open>Lines 1014-1026: the multiplicative search, with the same two results.\<close>

definition product_search ::
  "engine \<Rightarrow> real \<Rightarrow> const list \<Rightarrow> bool \<Rightarrow> int \<Rightarrow> real \<Rightarrow> solution list \<Rightarrow>
   error + (solution list \<times> bool)" where
  "product_search E x constants full maxcoeff weps sols =
     (if x \<noteq> 1 then
        thenE (log_constants E constants) (\<lambda>logs.
        thenE (mp_log E x) (\<lambda>lx.
        thenE (pslq E (lx # map fst logs) (Some weps)) (\<lambda>r.
          case r of
            None \<Rightarrow> Inr (sols, False)
          | Some rv \<Rightarrow>
              thenE (accept_relation rv maxcoeff) (\<lambda>ok.
                if ok then thenE (prodstring rv logs) (\<lambda>s. Inr (sols @ [(s, rv)], \<not> full))
                else Inr (sols, False)))))
      else Inr (sols, False))"

text \<open>The two searches in sequence: everything between line 981 and line 1026.\<close>

definition identify_solutions ::
  "engine \<Rightarrow> real \<Rightarrow> const list \<Rightarrow> bool \<Rightarrow> int \<Rightarrow> real \<Rightarrow> bool \<Rightarrow>
   error + (solution list \<times> bool)" where
  "identify_solutions E x constants full maxcoeff weps quadratics =
     thenE (transform_search E x constants full maxcoeff weps quadratics
              (List.product transforms constants) [])
       (\<lambda>(sols, returned).
          if returned then Inr (sols, True)
          else product_search E x constants full maxcoeff weps sols)"

text \<open>
  The value of \<^verbatim>\<open>identify\<close>: \<^verbatim>\<open>None\<close>, one formula, or a list of formulas.
  \<^verbatim>\<open>sorted(solutions, key=len)\<close> is a stable sort; \<^verbatim>\<open>len(None)\<close> is a TypeError.
\<close>

datatype ident_result = NoResult | Formula string | Formulas "string list"

definition first_solution :: "solution list \<Rightarrow> error + ident_result" where
  "first_solution sols =
     (case sols of
        [] \<Rightarrow> Inl IndexError
      | (None, r) # rest \<Rightarrow> Inr NoResult
      | (Some s, r) # rest \<Rightarrow> Inr (Formula s))"

definition sorted_solutions :: "solution list \<Rightarrow> error + ident_result" where
  "sorted_solutions sols =
     (if list_ex (\<lambda>(s, r). s = None) sols then Inl TypeError
      else Inr (Formulas (sort_key length (map (\<lambda>(s, r). the s) sols))))"

definition identify_positive ::
  "engine \<Rightarrow> real \<Rightarrow> constants_arg \<Rightarrow> bool \<Rightarrow> int \<Rightarrow> real option \<Rightarrow> bool \<Rightarrow>
   error + ident_result" where
  "identify_positive E x constants full maxcoeff tolerance quadratics =
     thenE (search_constants E constants) (\<lambda>cs.
     thenE (identify_solutions E x cs full maxcoeff (weps_of E tolerance) quadratics)
       (\<lambda>(sols, returned).
          if returned then first_solution sols
          else if full then sorted_solutions sols
          else Inr NoResult))"

text \<open>
  Lines 956-963, for a negative \<^verbatim>\<open>x\<close>: \<^verbatim>\<open>["-(%s)"%s for s in sol]\<close> iterates over
  \<^verbatim>\<open>sol\<close>, and \<^verbatim>\<open>"-(%s)" % sol\<close> formats it. With \<^verbatim>\<open>full\<close> the value \<^verbatim>\<open>sol\<close> is
  always a list and without it never one; the other two cases of \<open>py_iter\<close> and
  \<open>py_format\<close> say what Python would do (a string iterates over its characters, a list
  is formatted as its \<^verbatim>\<open>repr\<close>, here for strings without quotes or escapes).
\<close>

definition negated :: "string \<Rightarrow> string" where
  "negated s = ''-('' @ s @ '')''"

definition py_iter :: "ident_result \<Rightarrow> string list" where
  "py_iter sol = (case sol of Formulas l \<Rightarrow> l | Formula s \<Rightarrow> map (\<lambda>c. [c]) s | NoResult \<Rightarrow> [])"

definition py_format :: "ident_result \<Rightarrow> string" where
  "py_format sol =
     (case sol of
        Formula s \<Rightarrow> s
      | Formulas l \<Rightarrow> ''['' @ join '', '' (map (\<lambda>s. [CHR 0x27] @ s @ [CHR 0x27]) l) @ '']''
      | NoResult \<Rightarrow> ''None'')"

text \<open>
  \<^verbatim>\<open>identify\<close> (lines 902-1030). The flag \<^verbatim>\<open>verbose\<close> only prints and is left out.
  The call on \<^verbatim>\<open>-x\<close> is the only recursion; \<^verbatim>\<open>-x\<close> is positive there.
\<close>

function identify ::
  "engine \<Rightarrow> real \<Rightarrow> constants_arg \<Rightarrow> bool \<Rightarrow> int \<Rightarrow> real option \<Rightarrow> bool \<Rightarrow>
   error + ident_result" where
  "identify E x constants full maxcoeff tolerance quadratics =
     (if x = 0 then Inr (if full then Formulas [''0''] else Formula ''0'')
      else if x < 0 then
        (case identify E (- x) constants full maxcoeff tolerance quadratics of
           Inl e \<Rightarrow> Inl e
         | Inr NoResult \<Rightarrow> Inr NoResult
         | Inr sol \<Rightarrow>
             if full then Inr (Formulas (map negated (py_iter sol)))
             else Inr (Formula (negated (py_format sol))))
      else identify_positive E x constants full maxcoeff tolerance quadratics)"
  by pat_completeness auto
termination
  by (relation "measure (\<lambda>(E, x, r). if x < 0 then 1 else 0)") auto

definition formulas_of :: "ident_result \<Rightarrow> string list" where
  "formulas_of res = (case res of NoResult \<Rightarrow> [] | Formula s \<Rightarrow> [s] | Formulas l \<Rightarrow> l)"

declare identify.simps [simp del]

text \<open>Every relation behind a list of solutions is non-empty and within the coefficient
  bound.\<close>

definition bounded :: "int \<Rightarrow> solution list \<Rightarrow> bool" where
  "bounded maxcoeff sols = (\<forall>(s, r)\<in>set sols. r \<noteq> [] \<and> (\<forall>c\<in>set r. \<bar>c\<bar> \<le> maxcoeff))"

section \<open>Properties of \<^verbatim>\<open>pslq\<close>\<close>

text \<open>
  C4 (as the code has it). Called with an empty vector, \<^verbatim>\<open>pslq\<close> does not return
  the negative result: the assertion \<^verbatim>\<open>n >= 1\<close> of line 679 fails and an
  AssertionError is raised, whatever the precision and the threshold.
\<close>

theorem pslq_empty_raises: "pslq E [] eps = Inl AssertionError"
  by (simp add: pslq_def)

theorem pslq_empty_not_silent: "pslq exact_engine [] None \<noteq> Inr None"
  by (simp add: pslq_def)


lemma thenE_Inr_iff: "thenE m f = Inr v \<longleftrightarrow> (\<exists>a. m = Inr a \<and> f a = Inr v)"
  by (cases m) auto

lemma fold_max_ge: "(v::int) \<le> fold max ws v \<and> (\<forall>w\<in>set ws. w \<le> fold max ws v)"
proof (induction ws arbitrary: v)
  case Nil
  show ?case by simp
next
  case (Cons a ws)
  have "max a v \<le> fold max ws (max a v)" and "\<forall>w\<in>set ws. w \<le> fold max ws (max a v)"
    using Cons.IH [of "max a v"] by auto
  then show ?case by auto
qed

lemma py_max_bound: "py_max vs = Inr mx \<Longrightarrow> \<forall>v\<in>set vs. v \<le> mx"
  using fold_max_ge by (auto simp: py_max_def split: list.splits)






lemma passes_le: "passes E n prec eps k st \<le> k"
  by (induction k arbitrary: st) (auto split: sum.splits iter_result.splits)

lemma iterate_main_loop:
  "iterate E n prec eps j st = Some st' \<Longrightarrow>
   main_loop E n prec eps (j + k) st = main_loop E n prec eps k st'"
  by (induction j arbitrary: st) (auto split: sum.splits iter_result.splits)

lemma degenerate_Break:
  "degenerate_rotation E n prec st \<Longrightarrow> pslq_iteration E n prec eps st = Inr Break"
  by (auto simp: degenerate_rotation_def pslq_iteration_def reduction_def rotate_def
      split: sum.splits)


lemma rep_loop_ends:
  "rep \<le> 100 \<Longrightarrow> k = 100 - rep \<Longrightarrow>
   rep_loop E n prec eps rep st =
     Some (main_loop E n prec eps k st, rep + passes E n prec eps k st)"
proof (induction k arbitrary: rep st)
  case 0
  then have "rep = 100" by simp
  then show ?case by (subst rep_loop.simps) simp
next
  case (Suc k)
  then have lt: "rep < 100" and le: "rep + 1 \<le> 100" and k: "k = 100 - (rep + 1)" by simp_all
  show ?case
  proof (cases "pslq_iteration E n prec eps st")
    case (Inl e)
    with lt show ?thesis by (subst rep_loop.simps) simp
  next
    case (Inr r)
    show ?thesis
    proof (cases r)
      case (Continue st')
      with Inr lt Suc.IH [OF le k, of st'] show ?thesis by (subst rep_loop.simps) simp
    next
      case Break
      with Inr lt show ?thesis by (subst rep_loop.simps) simp
    next
      case (Return vec)
      with Inr lt show ?thesis by (subst rep_loop.simps) simp
    qed
  qed
qed

lemma main_loop_passes:
  "main_loop E n prec eps k st = main_loop E n prec eps (passes E n prec eps k st) st"
  by (induction k arbitrary: st) (auto split: sum.splits iter_result.splits)

lemma iterate_passes:
  "iterate E n prec eps k st = Some st' \<Longrightarrow> passes E n prec eps k st = k"
  by (induction k arbitrary: st) (auto split: sum.splits iter_result.splits)

text \<open>
  C3. For every non-empty input the call \<^verbatim>\<open>pslq(x, eps)\<close> ends: the loop on the counter
  \<^verbatim>\<open>REP\<close>, which has no value if it runs forever, has one, and it is the result of
  \<^verbatim>\<open>pslq\<close> (a vector, \<open>None\<close>, or an exception) together with the number of passes
  executed. That number is at most 100, and it is all the call needs: \<^verbatim>\<open>pslq\<close> gives
  the same result when its main loop is cut to that many passes. When all 100 passes fall
  through without a relation accepted, the call returns \<open>None\<close>, not an exception.
  (Ending includes raising: a vector of one element raises KeyError in its first pass,
  and a vector with a zero tail raises ZeroDivisionError before the loop.)
\<close>

theorem pslq_iteration_budget:
  assumes "xs \<noteq> []"
  shows "pslq_call E xs eps = Some (pslq E xs eps, run_passes E xs eps) \<and>
         run_passes E xs eps \<le> 100 \<and>
         pslq E xs eps = pslq_within (run_passes E xs eps) E xs eps \<and>
         (budget_exhausted E xs eps \<longrightarrow> pslq E xs eps = Inr None)"
proof (intro conjI)
  show "pslq_call E xs eps = Some (pslq E xs eps, run_passes E xs eps)"
    using rep_loop_ends [of 0 100]
    by (auto simp: pslq_call_def pslq_def run_passes_def Let_def split: sum.splits)
next
  show "run_passes E xs eps \<le> 100"
    using passes_le by (auto simp: run_passes_def Let_def split: sum.splits)
next
  show "pslq E xs eps = pslq_within (run_passes E xs eps) E xs eps"
    using main_loop_passes
    by (auto simp: pslq_within_def pslq_def run_passes_def Let_def split: sum.splits)
next
  show "budget_exhausted E xs eps \<longrightarrow> pslq E xs eps = Inr None"
  proof
    assume ex: "budget_exhausted E xs eps"
    let ?n = "int (length xs)" and ?p = "mp_prec E + 60"
    let ?e = "to_fixed E (pslq_eps (mp_prec E) (length xs) eps) ?p"
    from ex obtain st0 st where ok: "length xs \<ge> 1" "mp_prec E \<ge> 53"
      and init: "pslq_init E ?n ?p xs = Inr st0"
      and it: "iterate E ?n ?p ?e 100 st0 = Some st"
      by (auto simp: budget_exhausted_def Let_def split: sum.splits)
    from iterate_main_loop [OF it, of 0] have "main_loop E ?n ?p ?e 100 st0 = Inr None" by simp
    with ok init show "pslq E xs eps = Inr None" by (simp add: pslq_def Let_def)
  qed
qed

text \<open>
  C7. If a pass of the main loop (the one with index \<open>j < 100\<close>) chooses a pivot
  \<open>m \<le> n - 2\<close> and finds the rotation norm \<^verbatim>\<open>sqrt_fixed((H[m,m]**2 + H[m,m+1]**2) >> prec)\<close>
  equal to zero, the loop is left and \<^verbatim>\<open>pslq\<close> returns \<open>None\<close>: no exception, no
  further pass.
\<close>

theorem pslq_degenerate_rotation:
  assumes "j < 100" and "degenerate_at E xs eps j"
  shows "pslq E xs eps = Inr None"
proof -
  let ?n = "int (length xs)" and ?p = "mp_prec E + 60"
  let ?e = "to_fixed E (pslq_eps (mp_prec E) (length xs) eps) ?p"
  from assms(2) obtain st0 st where ok: "length xs \<ge> 1" "mp_prec E \<ge> 53"
    and init: "pslq_init E ?n ?p xs = Inr st0"
    and it: "iterate E ?n ?p ?e j st0 = Some st"
    and deg: "degenerate_rotation E ?n ?p st"
    by (auto simp: degenerate_at_def Let_def split: sum.splits option.splits)
  from assms(1) obtain k where k: "100 = j + Suc k"
    by (metis add_Suc_right less_imp_Suc_add)
  have "main_loop E ?n ?p ?e (j + Suc k) st0 = main_loop E ?n ?p ?e (Suc k) st"
    using it by (rule iterate_main_loop)
  also have "\<dots> = Inr None" using degenerate_Break [OF deg, of ?e] by simp
  finally have "main_loop E ?n ?p ?e 100 st0 = Inr None" unfolding k .
  with ok init show ?thesis by (simp add: pslq_def Let_def)
qed

text \<open>
  C6 (as the code has it). Without an \<^verbatim>\<open>eps\<close> argument \<^verbatim>\<open>pslq\<close> behaves as with
  \<open>eps = 2^-target\<close>, where \<open>target\<close> is the working precision divided by
  \<open>max(2, n)\<close>, replaced by three quarters of the working precision when the quotient is
  below 30; with the asserted precision of at least 53 bits the target is never below 30.
\<close>

theorem pslq_default_eps:
  assumes "xs \<noteq> []" and "53 \<le> mp_prec E"
  shows "pslq E xs None = pslq E xs (Some (1 / 2 ^ pslq_target (mp_prec E) (length xs))) \<and>
     pslq_target (mp_prec E) (length xs) =
       (if mp_prec E div max 2 (length xs) < 30 then 3 * mp_prec E div 4
        else mp_prec E div max 2 (length xs)) \<and>
     30 \<le> pslq_target (mp_prec E) (length xs)"
  using assms by (auto simp: pslq_def pslq_eps_def pslq_target_def Let_def)

text \<open>At 100 bits the target is 50 for a single value, not \<open>100 div 1\<close>; it is 50 for
  two values and 75 for four, so it is no quotient clamped from below either.\<close>

theorem pslq_target_not_prec_div_n:
  "pslq_eps 100 1 None = 1 / 2 ^ 50 \<and> pslq_target 100 1 < 100 div 1 \<and>
   pslq_target 100 2 = 50 \<and> pslq_target 100 4 = 75"
proof -
  have t: "pslq_target 100 1 = 50" "pslq_target 100 2 = 50" "pslq_target 100 4 = 75"
    by code_simp+
  show ?thesis unfolding pslq_eps_def t by simp
qed


theorem pslq_degenerate_rotation_witness:
  "(1 :: nat) < 100 \<and> degenerate_at exact_engine [0, 0, 1] (Some 0) 1 \<and>
   pslq exact_engine [0, 0, 1] (Some 0) = Inr None"
proof -
  have j: "(1 :: nat) < 100" by simp
  have d: "degenerate_at exact_engine [0, 0, 1] (Some 0) 1" by code_simp
  from pslq_degenerate_rotation [OF j d] j d show ?thesis by blast
qed

theorem pslq_default_eps_witness:
  "[0, 1 :: real] \<noteq> [] \<and> 53 \<le> mp_prec exact_engine \<and>
   30 \<le> pslq_target (mp_prec exact_engine) (length [0, 1 :: real])"
proof -
  have a: "[0, 1 :: real] \<noteq> []" by simp
  have b: "53 \<le> mp_prec exact_engine" by (simp add: exact_engine_def)
  from pslq_default_eps [OF a b, THEN conjunct2, THEN conjunct2] a b show ?thesis by blast
qed

theorem pslq_iteration_budget_witness:
  "[0, 1 :: real] \<noteq> [] \<and> budget_exhausted exact_engine [0, 1] (Some 0) \<and>
   pslq_call exact_engine [0, 1] (Some 0) = Some (Inr None, 100) \<and>
   pslq exact_engine [0, 1] (Some 0) = Inr None \<and>
   run_passes exact_engine [0, 1] (Some 0) = 100 \<and>
   pslq_call exact_engine [0, 1] None = Some (Inr (Some [1, 0]), 1) \<and>
   pslq_call exact_engine [1] None = Some (Inl KeyError, 1) \<and>
   pslq_call exact_engine [1, 0] None = Some (Inl ZeroDivisionError, 0)"
proof -
  define a where "a = \<lparr>yv = [None, Some 0, Some (2 ^ 113)],
             Am = [((1, 1), 2 ^ 113), ((1, 2), 0), ((2, 1), 0), ((2, 2), 2 ^ 113)],
             Bm = [((1, 1), 2 ^ 113), ((1, 2), 0), ((2, 1), 0), ((2, 2), 2 ^ 113)],
             Hm = [((1, 1), 2 ^ 113), ((1, 2), 0), ((2, 1), 0), ((2, 2), 0)]\<rparr>"
  define b where "b = \<lparr>yv = [None, Some (2 ^ 113), Some 0],
             Am = [((1, 1), 0), ((1, 2), 2 ^ 113), ((2, 1), 2 ^ 113), ((2, 2), 0)],
             Bm = [((1, 1), 0), ((1, 2), 2 ^ 113), ((2, 1), 2 ^ 113), ((2, 2), 0)],
             Hm = [((1, 1), 0), ((1, 2), 0), ((2, 1), 2 ^ 113), ((2, 2), 0)]\<rparr>"
  have init: "pslq_init exact_engine 2 113 [0, 1] = Inr a" unfolding a_def by code_simp
  have ab: "pslq_iteration exact_engine 2 113 0 a = Inr (Continue b)"
    unfolding a_def b_def by code_simp
  have ba: "pslq_iteration exact_engine 2 113 0 b = Inr (Continue a)"
    unfolding a_def b_def by code_simp
  have per: "iterate exact_engine 2 113 0 (2 * k) a = Some a" for k
    by (induction k) (simp_all add: ab ba)
  have full: "iterate exact_engine 2 113 0 100 a = Some a" using per [of 50] by simp
  have e: "to_fixed exact_engine (pslq_eps p n (Some 0)) q = 0" for p n q
    by (simp add: exact_engine_def pslq_eps_def)
  have p: "mp_prec exact_engine = 53" by (simp add: exact_engine_def)
  have ex: "budget_exhausted exact_engine [0, 1] (Some 0)"
    by (simp add: budget_exhausted_def Let_def p e init full)
  have rp: "run_passes exact_engine [0, 1] (Some 0) = 100"
    by (simp add: run_passes_def Let_def p e init iterate_passes [OF full])
  have ne: "[0, 1 :: real] \<noteq> []" by simp
  have r1: "pslq exact_engine [0, 1] None = Inr (Some [1, 0])" by code_simp
  have p1: "run_passes exact_engine [0, 1] None = 1" by code_simp
  note t0 = pslq_iteration_budget [OF ne, of exact_engine "Some 0"]
  from t0 have c0: "pslq_call exact_engine [0, 1] (Some 0) =
      Some (pslq exact_engine [0, 1] (Some 0), run_passes exact_engine [0, 1] (Some 0))"
    by (rule conjunct1)
  from t0 ex have r0: "pslq exact_engine [0, 1] (Some 0) = Inr None" by blast
  from c0 have k0: "pslq_call exact_engine [0, 1] (Some 0) = Some (Inr None, 100)"
    unfolding r0 rp .
  from pslq_iteration_budget [OF ne, of exact_engine None]
  have "pslq_call exact_engine [0, 1] None =
      Some (pslq exact_engine [0, 1] None, run_passes exact_engine [0, 1] None)"
    by (rule conjunct1)
  then have k1: "pslq_call exact_engine [0, 1] None = Some (Inr (Some [1, 0]), 1)"
    unfolding r1 p1 .
  have r2: "pslq exact_engine [1] None = Inl KeyError" by code_simp
  have p2: "run_passes exact_engine [1] None = 1" by code_simp
  have "[1 :: real] \<noteq> []" by simp
  from pslq_iteration_budget [OF this, of exact_engine None]
  have "pslq_call exact_engine [1] None =
      Some (pslq exact_engine [1] None, run_passes exact_engine [1] None)"
    by (rule conjunct1)
  then have k2: "pslq_call exact_engine [1] None = Some (Inl KeyError, 1)"
    unfolding r2 p2 .
  have r3: "pslq exact_engine [1, 0] None = Inl ZeroDivisionError" by code_simp
  have p3: "run_passes exact_engine [1, 0] None = 0" by code_simp
  have "[1, 0 :: real] \<noteq> []" by simp
  from pslq_iteration_budget [OF this, of exact_engine None]
  have "pslq_call exact_engine [1, 0] None =
      Some (pslq exact_engine [1, 0] None, run_passes exact_engine [1, 0] None)"
    by (rule conjunct1)
  then have k3: "pslq_call exact_engine [1, 0] None = Some (Inl ZeroDivisionError, 0)"
    unfolding r3 p3 .
  from ne ex k0 r0 rp k1 k2 k3 show ?thesis by (intro conjI)
qed

section \<open>Properties of \<^verbatim>\<open>identify\<close>\<close>

lemma accept_relation_bound:
  assumes "accept_relation r maxcoeff = Inr True"
  shows "r \<noteq> [] \<and> (\<forall>c\<in>set r. \<bar>c\<bar> \<le> maxcoeff)"
proof -
  from assms obtain mx where mx: "py_max (map abs r) = Inr mx" and le: "mx \<le> maxcoeff"
    by (auto simp: accept_relation_def thenE_Inr_iff split: if_splits)
  from mx have "r \<noteq> []" by (auto simp: py_max_def)
  moreover have "\<forall>c\<in>set r. \<bar>c\<bar> \<le> maxcoeff"
    using py_max_bound [OF mx] le by fastforce
  ultimately show ?thesis by simp
qed

lemma quadratic_formula_bound:
  assumes "quadratic_formula E t maxcoeff weps = Inr (Some (s, r))"
  shows "r \<noteq> [] \<and> (\<forall>c\<in>set r. \<bar>c\<bar> \<le> maxcoeff)"
proof -
  from assms obtain q where
    body: "(case q of
         None \<Rightarrow> Inr None
       | Some qv \<Rightarrow>
           if length qv = 3 \<and> qv ! 2 \<noteq> 0 then
             (let aa = qv ! 0; bb = qv ! 1; cc = qv ! 2
              in if max \<bar>aa\<bar> (max \<bar>bb\<bar> \<bar>cc\<bar>) \<le> maxcoeff
                 then thenE (quadraticstring E t aa bb cc) (\<lambda>s. Inr (Some (s, qv)))
                 else Inr None)
           else Inr None) = Inr (Some (s, r))"
    by (auto simp: quadratic_formula_def thenE_Inr_iff)
  then obtain qv where qv: "q = Some qv" by (cases q) auto
  from body qv have len: "length qv = 3"
    and mx: "max \<bar>qv ! 0\<bar> (max \<bar>qv ! 1\<bar> \<bar>qv ! 2\<bar>) \<le> maxcoeff"
    and r: "r = qv"
    by (auto simp: Let_def thenE_Inr_iff split: if_splits)
  from len obtain a b c where abc: "qv = [a, b, c]"
    by (auto simp: length_Suc_conv numeral_3_eq_3)
  with mx r show ?thesis by auto
qed

lemma find_formula_bound:
  assumes "find_formula E t constants maxcoeff weps quadratics = Inr (Some (s, r))"
  shows "r \<noteq> [] \<and> (\<forall>c\<in>set r. \<bar>c\<bar> \<le> maxcoeff)"
proof -
  from assms obtain rr linear where
    lin: "(case rr of None \<Rightarrow> Inr False | Some rv \<Rightarrow> accept_relation rv maxcoeff) = Inr linear"
    and body: "(case rr of
         Some rv \<Rightarrow>
           if linear then thenE (pslqstring rv constants) (\<lambda>s. Inr (Some (s, rv)))
           else if quadratics then quadratic_formula E t maxcoeff weps
           else Inr None
       | None \<Rightarrow>
           if quadratics then quadratic_formula E t maxcoeff weps else Inr None) = Inr (Some (s, r))"
    by (auto simp: find_formula_def thenE_Inr_iff)
  show ?thesis
  proof (cases "linear \<and> rr \<noteq> None")
    case True
    then obtain rv where rv: "rr = Some rv" and l: "linear" by auto
    with body have "r = rv" by (auto simp: thenE_Inr_iff)
    moreover from lin rv l have "accept_relation rv maxcoeff = Inr True" by simp
    ultimately show ?thesis using accept_relation_bound by blast
  next
    case False
    with body have "quadratic_formula E t maxcoeff weps = Inr (Some (s, r))"
      by (auto split: option.splits if_splits)
    then show ?thesis by (rule quadratic_formula_bound)
  qed
qed

lemma bounded_snoc:
  "bounded m sols \<Longrightarrow> r \<noteq> [] \<and> (\<forall>c\<in>set r. \<bar>c\<bar> \<le> m) \<Longrightarrow> bounded m (sols @ [(s, r)])"
  by (auto simp: bounded_def)

lemma transform_search_bound:
  "bounded maxcoeff sols \<Longrightarrow>
   transform_search E x constants full maxcoeff weps quadratics pairs sols = Inr (sols', ret) \<Longrightarrow>
   bounded maxcoeff sols' \<and> (full \<longrightarrow> \<not> ret)"
proof (induction pairs arbitrary: sols)
  case Nil
  then show ?case by simp
next
  case (Cons pr pairs)
  obtain ft ftn red c cn where pr: "pr = ((ft, ftn, red), (c, cn))" by (metis surj_pair)
  note run = Cons.prems(2) [unfolded pr]
  show ?case
  proof (cases "red \<and> cn = ''1''")
    case True
    with run Cons.IH [OF Cons.prems(1)] show ?thesis by simp
  next
    case nr: False
    show ?thesis
    proof (cases "ft E x c")
      case (Inl e)
      with run nr show ?thesis by auto
    next
      case (Inr t)
      show ?thesis
      proof (cases "\<bar>t\<bar> > of_int (maxcoeff ^ 2) \<or> \<bar>t\<bar> < weps")
        case True
        with run nr Inr Cons.IH [OF Cons.prems(1)] show ?thesis by auto
      next
        case inr: False
        show ?thesis
        proof (cases "find_formula E t constants maxcoeff weps quadratics")
          case (Inl e)
          with run nr Inr inr show ?thesis by auto
        next
          case ff: (Inr f)
          show ?thesis
          proof (cases f)
            case None
            with run nr Inr inr ff Cons.IH [OF Cons.prems(1)] show ?thesis by auto
          next
            case (Some sr)
            obtain s r where sr: "sr = (s, r)" by (cases sr)
            from ff Some sr have b: "r \<noteq> [] \<and> (\<forall>c\<in>set r. \<bar>c\<bar> \<le> maxcoeff)"
              using find_formula_bound by blast
            let ?sols = "sols @ [(Some (apply_template ftn cn s), r)]"
            have bs: "bounded maxcoeff ?sols" using Cons.prems(1) b by (rule bounded_snoc)
            show ?thesis
            proof (cases "s \<noteq> []")
              case False
              with run nr Inr inr ff Some sr Cons.IH [OF Cons.prems(1)] show ?thesis by auto
            next
              case True
              show ?thesis
              proof (cases full)
                case True
                with run nr Inr inr ff Some sr \<open>s \<noteq> []\<close> Cons.IH [OF bs] show ?thesis
                  by (auto simp: Let_def)
              next
                case False
                with run nr Inr inr ff Some sr \<open>s \<noteq> []\<close> bs show ?thesis
                  by (auto simp: Let_def)
              qed
            qed
          qed
        qed
      qed
    qed
  qed
qed

lemma product_search_bound:
  assumes "bounded maxcoeff sols"
    and "product_search E x constants full maxcoeff weps sols = Inr (sols', ret)"
  shows "bounded maxcoeff sols' \<and> (full \<longrightarrow> \<not> ret)"
proof (cases "x \<noteq> 1")
  case False
  with assms show ?thesis by (simp add: product_search_def)
next
  case True
  with assms(2) obtain logs r where
    body: "(case r of
            None \<Rightarrow> Inr (sols, False)
          | Some rv \<Rightarrow>
              thenE (accept_relation rv maxcoeff) (\<lambda>ok.
                if ok then thenE (prodstring rv logs) (\<lambda>s. Inr (sols @ [(s, rv)], \<not> full))
                else Inr (sols, False))) = Inr (sols', ret)"
    by (auto simp: product_search_def thenE_Inr_iff)
  show ?thesis
  proof (cases r)
    case None
    with body assms(1) show ?thesis by simp
  next
    case (Some rv)
    with body obtain ok where ok: "accept_relation rv maxcoeff = Inr ok"
      and fin: "(if ok then thenE (prodstring rv logs) (\<lambda>s. Inr (sols @ [(s, rv)], \<not> full))
                else Inr (sols, False)) = Inr (sols', ret)"
      by (auto simp: thenE_Inr_iff)
    show ?thesis
    proof (cases ok)
      case False
      with fin assms(1) show ?thesis by simp
    next
      case True
      with ok have "accept_relation rv maxcoeff = Inr True" by simp
      then have b: "rv \<noteq> [] \<and> (\<forall>c\<in>set rv. \<bar>c\<bar> \<le> maxcoeff)"
        by (rule accept_relation_bound)
      from True fin obtain s where "sols' = sols @ [(s, rv)]" "ret = (\<not> full)"
        by (auto simp: thenE_Inr_iff)
      then show ?thesis using bounded_snoc [OF assms(1) b] by simp
    qed
  qed
qed

lemma identify_solutions_bound:
  assumes "identify_solutions E x constants full maxcoeff weps quadratics = Inr (sols, ret)"
  shows "bounded maxcoeff sols \<and> (full \<longrightarrow> \<not> ret)"
proof -
  have b0: "bounded maxcoeff []" by (simp add: bounded_def)
  from assms obtain sols1 ret1 where
    ts: "transform_search E x constants full maxcoeff weps quadratics
           (List.product transforms constants) [] = Inr (sols1, ret1)"
    and rest: "(if ret1 then Inr (sols1, True)
               else product_search E x constants full maxcoeff weps sols1) = Inr (sols, ret)"
    by (auto simp: identify_solutions_def thenE_Inr_iff)
  from transform_search_bound [OF b0 ts] have b1: "bounded maxcoeff sols1" "full \<longrightarrow> \<not> ret1"
    by auto
  show ?thesis
  proof (cases ret1)
    case True
    with rest b1 show ?thesis by auto
  next
    case False
    with rest have "product_search E x constants full maxcoeff weps sols1 = Inr (sols, ret)"
      by simp
    from product_search_bound [OF b1(1) this] show ?thesis .
  qed
qed


lemma identify_pos:
  "0 < x \<Longrightarrow> identify E x constants full maxcoeff tolerance quadratics =
     identify_positive E x constants full maxcoeff tolerance quadratics"
  by (subst identify.simps) simp

lemma identify_neg:
  "x < 0 \<Longrightarrow> identify E x constants full maxcoeff tolerance quadratics =
     (case identify_positive E (- x) constants full maxcoeff tolerance quadratics of
        Inl e \<Rightarrow> Inl e
      | Inr NoResult \<Rightarrow> Inr NoResult
      | Inr sol \<Rightarrow>
          if full then Inr (Formulas (map negated (py_iter sol)))
          else Inr (Formula (negated (py_format sol))))"
  by (subst identify.simps) (simp add: identify_pos)

lemma first_solution_shape:
  assumes "first_solution sols = Inr res"
  shows "res = NoResult \<or> (\<exists>s r. res = Formula s \<and> (Some s, r) \<in> set sols)"
proof (cases sols)
  case Nil
  with assms show ?thesis by (simp add: first_solution_def)
next
  case (Cons a rest)
  obtain s r where a: "a = (s, r)" by (cases a)
  show ?thesis
  proof (cases s)
    case None
    with assms Cons a show ?thesis by (simp add: first_solution_def)
  next
    case (Some f)
    with assms Cons a have "res = Formula f" "(Some f, r) \<in> set sols"
      by (simp_all add: first_solution_def)
    then show ?thesis by blast
  qed
qed

lemma sorted_solutions_shape:
  "sorted_solutions sols = Inr res \<Longrightarrow>
   \<exists>l. res = Formulas l \<and> sorted (map length l) \<and> (\<forall>f\<in>set l. \<exists>r. (Some f, r) \<in> set sols)"
proof -
  assume a: "sorted_solutions sols = Inr res"
  then have nn: "\<not> list_ex (\<lambda>(s, r). s = None) sols"
    and res: "res = Formulas (sort_key length (map (\<lambda>(s, r). the s) sols))"
    by (auto simp: sorted_solutions_def split: if_splits)
  have "\<forall>f\<in>set (map (\<lambda>(s, r). the s) sols). \<exists>r. (Some f, r) \<in> set sols"
    using nn by (fastforce simp: list_ex_iff)
  then show ?thesis using res by (simp add: sorted_sort_key)
qed

lemma identify_positive_shape:
  assumes "identify_positive E x constants full maxcoeff tolerance quadratics = Inr res"
  shows "(full \<longrightarrow> (\<exists>l. res = Formulas l \<and> sorted (map length l))) \<and>
         (\<not> full \<longrightarrow> res = NoResult \<or> (\<exists>s. res = Formula s))"
proof -
  from assms obtain cs sols ret where
    sol: "identify_solutions E x cs full maxcoeff (weps_of E tolerance) quadratics = Inr (sols, ret)"
    and fin: "(if ret then first_solution sols
               else if full then sorted_solutions sols else Inr NoResult) = Inr res"
    by (auto simp: identify_positive_def thenE_Inr_iff)
  from identify_solutions_bound [OF sol] have nr: "full \<longrightarrow> \<not> ret" by simp
  show ?thesis
  proof (cases full)
    case True
    with nr fin have "sorted_solutions sols = Inr res" by simp
    from sorted_solutions_shape [OF this] True show ?thesis by blast
  next
    case False
    with fin first_solution_shape [of sols res] show ?thesis by (auto split: if_splits)
  qed
qed

lemma identify_positive_bounded:
  assumes "identify_positive E x constants full maxcoeff tolerance quadratics = Inr res"
    and "f \<in> set (formulas_of res)"
  shows "\<exists>cs sols ret r.
           search_constants E constants = Inr cs \<and>
           identify_solutions E x cs full maxcoeff (weps_of E tolerance) quadratics = Inr (sols, ret) \<and>
           (Some f, r) \<in> set sols \<and> r \<noteq> [] \<and> (\<forall>c\<in>set r. \<bar>c\<bar> \<le> maxcoeff)"
proof -
  from assms(1) obtain cs sols ret where cs: "search_constants E constants = Inr cs"
    and sol: "identify_solutions E x cs full maxcoeff (weps_of E tolerance) quadratics = Inr (sols, ret)"
    and fin: "(if ret then first_solution sols
               else if full then sorted_solutions sols else Inr NoResult) = Inr res"
    by (auto simp: identify_positive_def thenE_Inr_iff)
  from identify_solutions_bound [OF sol] have b: "bounded maxcoeff sols" by simp
  have "\<exists>r. (Some f, r) \<in> set sols"
  proof (cases ret)
    case True
    with fin have "first_solution sols = Inr res" by simp
    from first_solution_shape [OF this] assms(2) show ?thesis
      by (auto simp: formulas_of_def)
  next
    case False
    show ?thesis
    proof (cases full)
      case True
      with False fin have "sorted_solutions sols = Inr res" by simp
      from sorted_solutions_shape [OF this] assms(2) show ?thesis
        by (auto simp: formulas_of_def)
    next
      case nf: False
      with False fin assms(2) show ?thesis by (auto simp: formulas_of_def)
    qed
  qed
  then obtain r where r: "(Some f, r) \<in> set sols" ..
  with b have "r \<noteq> [] \<and> (\<forall>c\<in>set r. \<bar>c\<bar> \<le> maxcoeff)" by (auto simp: bounded_def)
  with cs sol r show ?thesis by blast
qed

text \<open>
  C2. Every formula that \<^verbatim>\<open>identify\<close> returns for a non-zero \<^verbatim>\<open>x\<close>, whether one
  formula or a list, and whether found by the search over the transforms and constants
  or by the multiplicative search, was built from a relation vector of the search on
  \<open>\<bar>x\<bar>\<close> all of whose coefficients are at most \<^verbatim>\<open>maxcoeff\<close> in absolute value (for a
  negative \<^verbatim>\<open>x\<close> the formula is the one built from the relation, wrapped as
  \<^verbatim>\<open>-(...)\<close>). A relation with a larger coefficient yields no returned formula. For
  \<^verbatim>\<open>x = 0\<close> the formula \<^verbatim>\<open>'0'\<close> is returned without a search.
\<close>

theorem identify_coefficients_bounded:
  assumes "x \<noteq> 0"
    and "identify E x constants full maxcoeff tolerance quadratics = Inr res"
    and "f \<in> set (formulas_of res)"
  shows "\<exists>cs sols ret r g.
           search_constants E constants = Inr cs \<and>
           identify_solutions E \<bar>x\<bar> cs full maxcoeff (weps_of E tolerance) quadratics = Inr (sols, ret) \<and>
           (Some g, r) \<in> set sols \<and> f = (if x < 0 then ''-('' @ g @ '')'' else g) \<and>
           r \<noteq> [] \<and> (\<forall>c\<in>set r. \<bar>c\<bar> \<le> maxcoeff)"
proof (cases "0 < x")
  case True
  with assms(2) have "identify_positive E x constants full maxcoeff tolerance quadratics = Inr res"
    by (simp add: identify_pos)
  from identify_positive_bounded [OF this assms(3)] True show ?thesis by auto
next
  case False
  with assms(1) have neg: "x < 0" by simp
  let ?p = "identify_positive E (- x) constants full maxcoeff tolerance quadratics"
  from assms(2) neg obtain sol where p: "?p = Inr sol"
    by (cases ?p) (auto simp: identify_neg)
  from identify_positive_shape [OF p] have
    sh: "full \<longrightarrow> (\<exists>l. sol = Formulas l)" "\<not> full \<longrightarrow> sol = NoResult \<or> (\<exists>s. sol = Formula s)"
    by auto
  have "\<exists>g. g \<in> set (formulas_of sol) \<and> f = ''-('' @ g @ '')''"
  proof (cases sol)
    case NoResult
    with assms(2,3) neg p show ?thesis by (simp add: identify_neg formulas_of_def)
  next
    case (Formula s)
    with sh have "\<not> full" by auto
    with assms(2,3) neg p Formula show ?thesis
      by (auto simp: identify_neg formulas_of_def py_format_def negated_def)
  next
    case (Formulas l)
    with sh have full by auto
    with assms(2,3) neg p Formulas show ?thesis
      by (auto simp: identify_neg formulas_of_def py_iter_def negated_def)
  qed
  then obtain g where g: "g \<in> set (formulas_of sol)" and f: "f = ''-('' @ g @ '')''" by blast
  from identify_positive_bounded [OF p g] neg f show ?thesis by auto
qed

text \<open>
  C8. For a negative \<^verbatim>\<open>x\<close>, \<^verbatim>\<open>identify\<close> calls itself on \<open>\<bar>x\<bar>\<close> with the same
  remaining arguments and returns every resulting formula \<^verbatim>\<open>s\<close> as \<^verbatim>\<open>-(s)\<close>: the one
  formula, or each formula of the list. If the call on \<open>\<bar>x\<bar>\<close> finds nothing, so does
  the call on \<^verbatim>\<open>x\<close>; if it raises, so does the call on \<^verbatim>\<open>x\<close>.
\<close>

theorem identify_negative:
  assumes "x < 0"
  shows "identify E x constants full maxcoeff tolerance quadratics =
     (case identify E \<bar>x\<bar> constants full maxcoeff tolerance quadratics of
        Inl e \<Rightarrow> Inl e
      | Inr NoResult \<Rightarrow> Inr NoResult
      | Inr (Formula s) \<Rightarrow> Inr (Formula (''-('' @ s @ '')''))
      | Inr (Formulas l) \<Rightarrow> Inr (Formulas (map (\<lambda>s. ''-('' @ s @ '')'') l)))"
proof -
  let ?p = "identify_positive E (- x) constants full maxcoeff tolerance quadratics"
  from assms have abs: "\<bar>x\<bar> = - x" and pos: "0 < - x" by simp_all
  have rec: "identify E \<bar>x\<bar> constants full maxcoeff tolerance quadratics = ?p"
    unfolding abs using pos by (rule identify_pos)
  have neg: "negated = (\<lambda>s. ''-('' @ s @ '')'')" by (rule ext) (simp add: negated_def)
  show ?thesis
  proof (cases ?p)
    case (Inl e)
    then show ?thesis unfolding rec by (simp add: identify_neg [OF assms])
  next
    case (Inr res)
    from identify_positive_shape [OF Inr] have
      sh: "full \<longrightarrow> (\<exists>l. res = Formulas l)" "\<not> full \<longrightarrow> res = NoResult \<or> (\<exists>s. res = Formula s)"
      by auto
    show ?thesis
    proof (cases res)
      case NoResult
      with Inr show ?thesis unfolding rec by (simp add: identify_neg [OF assms])
    next
      case (Formula s)
      with sh have "\<not> full" by auto
      with Inr Formula show ?thesis unfolding rec
        by (simp add: identify_neg [OF assms] py_format_def negated_def)
    next
      case (Formulas l)
      with sh have full by auto
      with Inr Formulas show ?thesis unfolding rec
        by (simp add: identify_neg [OF assms] py_iter_def neg)
    qed
  qed
qed

text \<open>
  C9. Whatever the \<^verbatim>\<open>constants\<close> argument, the list of constants that \<^verbatim>\<open>identify\<close>
  searches contains the constant 1 with display name \<^verbatim>\<open>'1'\<close>, at its front: it is
  there in particular when the value 1 is absent from the supplied constants.
\<close>

theorem search_constants_has_one:
  assumes "search_constants E constants = Inr cs"
  shows "hd cs = (1, ''1'') \<and> (1, ''1'') \<in> set cs"
  using assms
  by (auto simp: search_constants_def inject_one_def py_int_eq_str_def thenE_Inr_iff list_ex_iff)



lemma eval_constants_prefix: "fst (eval_constants E ps) = take (length (fst (eval_constants E ps))) ps"
  by (induction ps) (auto split: sum.splits prod.splits)

lemma eval_constants_ok:
  "snd (eval_constants E ps) = Inr cs \<Longrightarrow>
   fst (eval_constants E ps) = ps \<and> map snd cs = ps \<and>
   list_all2 (\<lambda>c p. eval_expr E p = Inr (fst c)) cs ps"
  by (induction ps arbitrary: cs) (auto split: sum.splits prod.splits)

text \<open>
  C5 (as the code has it). A dictionary of constants is resolved by its own entries and
  nothing is evaluated. A list of constants is a list of strings, and every string is
  passed to \<^verbatim>\<open>eval\<close>: when the resolution succeeds, the strings evaluated are exactly
  the strings of the list, each constant has its string as display name and the result of
  evaluating it as value.
\<close>

theorem constants_resolution:
  "fst (resolve_constants E (ConstDict items)) = [] \<and>
   snd (resolve_constants E (ConstDict items)) = Inr (map (\<lambda>(name, v). (v, name)) items) \<and>
   (snd (resolve_constants E (ConstList ps)) = Inr cs \<longrightarrow>
      fst (resolve_constants E (ConstList ps)) = ps \<and> map snd cs = ps \<and>
      list_all2 (\<lambda>c p. eval_expr E p = Inr (fst c)) cs ps)"
  using eval_constants_ok [of E ps cs] by (simp add: resolve_constants_def)

text \<open>The string \<^verbatim>\<open>'pi'\<close> of a list of constants is evaluated.\<close>

theorem constants_list_is_evaluated:
  "fst (resolve_constants exact_engine (ConstList [''pi''])) \<noteq> []"
  by (simp add: resolve_constants_def split: sum.splits)

theorem identify_coefficients_bounded_witness:
  "(1 :: real) \<noteq> 0 \<and>
   identify exact_engine 1 (ConstList []) False 1000 None True = Inr (Formula ''1'') \<and>
   ''1'' \<in> set (formulas_of (Formula ''1'')) \<and>
   (\<exists>cs sols ret r g.
      search_constants exact_engine (ConstList []) = Inr cs \<and>
      identify_solutions exact_engine \<bar>1\<bar> cs False 1000 (weps_of exact_engine None) True = Inr (sols, ret) \<and>
      (Some g, r) \<in> set sols \<and> ''1'' = (if (1 :: real) < 0 then ''-('' @ g @ '')'' else g) \<and>
      r \<noteq> [] \<and> (\<forall>c\<in>set r. \<bar>c\<bar> \<le> 1000))"
proof -
  have a: "(1 :: real) \<noteq> 0" by simp
  have b: "identify exact_engine 1 (ConstList []) False 1000 None True = Inr (Formula ''1'')"
    by code_simp
  have c: "''1'' \<in> set (formulas_of (Formula ''1''))" by (simp add: formulas_of_def)
  from identify_coefficients_bounded [OF a b c] a b c show ?thesis by blast
qed

theorem identify_negative_witness:
  "(- 1 :: real) < 0 \<and>
   identify exact_engine (- 1) (ConstList []) False 1000 None True = Inr (Formula ''-(1)'')"
proof -
  have a: "(- 1 :: real) < 0" by simp
  have b: "identify exact_engine \<bar>- 1\<bar> (ConstList []) False 1000 None True = Inr (Formula ''1'')"
    by code_simp
  have "identify exact_engine (- 1) (ConstList []) False 1000 None True = Inr (Formula ''-(1)'')"
    unfolding identify_negative [OF a] b by simp
  with a show ?thesis by (rule conjI)
qed

theorem search_constants_has_one_witness:
  "search_constants exact_engine (ConstList [''2'']) = Inr [(1, ''1''), (2, ''2'')] \<and>
   hd [(1 :: real, ''1''), (2, ''2'')] = (1, ''1'')"
proof -
  have a: "search_constants exact_engine (ConstList [''2'']) = Inr [(1, ''1''), (2, ''2'')]"
    by (simp add: search_constants_def resolve_constants_def inject_one_def py_int_eq_str_def
        exact_engine_def)
  from search_constants_has_one [OF a] a show ?thesis by blast
qed

theorem constants_resolution_witness:
  "snd (resolve_constants exact_engine (ConstList [''1'', ''2''])) = Inr [(1, ''1''), (2, ''2'')] \<and>
   fst (resolve_constants exact_engine (ConstList [''1'', ''2''])) = [''1'', ''2'']"
proof -
  have a: "snd (resolve_constants exact_engine (ConstList [''1'', ''2''])) = Inr [(1, ''1''), (2, ''2'')]"
    by (simp add: resolve_constants_def exact_engine_def)
  from constants_resolution [of exact_engine "[]" "[''1'', ''2'']" "[(1, ''1''), (2, ''2'')]"] a
  show ?thesis by blast
qed



end
